theory Spec2Isabelle
  imports Complex_Main "HOL-Library.Word"
begin

unbundle bit_operations_syntax

section \<open>JavaScript values and operators used by the EV3 extension\<close>

text \<open>
  An array element of the extension is either a number or \<open>undefined\<close> (a hole of a
  sparse array reads as \<open>undefined\<close> too). The numbers that reach the command arrays
  are integers.
\<close>

datatype jsval = Num int | Undefined

text \<open>
  The bitwise operators of JavaScript work on the 32-bit two's-complement image of their
  operands (\<open>ToInt32\<close>); \<open>>>\<close> is the arithmetic shift.
\<close>

definition toInt32 :: "int \<Rightarrow> int" where
  "toInt32 x = (x + 2 ^ 31) mod 2 ^ 32 - 2 ^ 31"

definition js_band :: "int \<Rightarrow> int \<Rightarrow> int" where
  "js_band a b = toInt32 a AND toInt32 b"

definition js_shr :: "int \<Rightarrow> nat \<Rightarrow> int" where
  "js_shr a k = toInt32 a div 2 ^ k"

text \<open>\<open>a && b\<close> on numbers: the left operand when it is falsy (zero), else the right one.\<close>

definition js_land :: "int \<Rightarrow> int \<Rightarrow> int" where
  "js_land a b = (if a = 0 then a else b)"

text \<open>\<open>xs[i]\<close>: reading beyond the end of an array gives \<open>undefined\<close>.\<close>

definition js_nth :: "'a list \<Rightarrow> nat \<Rightarrow> 'a option" where
  "js_nth xs i = (if i < length xs then Some (xs ! i) else None)"

text \<open>
  Arrays whose elements may be missing (\<open>undefined\<close>, \<open>null\<close> or a hole, all \<open>None\<close>):
  \<open>js_get\<close> is \<open>xs[i]\<close>, and \<open>js_set\<close> is \<open>xs[i] = v\<close>, which extends the array when
  \<open>i\<close> is beyond its end.
\<close>

definition js_get :: "'a option list \<Rightarrow> nat \<Rightarrow> 'a option" where
  "js_get xs i = (if i < length xs then xs ! i else None)"

definition js_set :: "'a option list \<Rightarrow> nat \<Rightarrow> 'a option \<Rightarrow> 'a option list" where
  "js_set xs i v =
     (if i < length xs then xs[i := v]
      else xs @ replicate (i - length xs) None @ [v])"

text \<open>\<open>xs.includes(undefined)\<close>\<close>

definition includes_undefined :: "'a option list \<Rightarrow> bool" where
  "includes_undefined xs = (None \<in> set xs)"

section \<open>Constant tables\<close>

text \<open>\<open>Ev3Encoding\<close>, \<open>Ev3Command\<close>, \<open>Ev3Opcode\<close> and \<open>Ev3Args\<close>.\<close>

definition ONE_BYTE :: int where [simp]: "ONE_BYTE = 0x81"
definition TWO_BYTES :: int where [simp]: "TWO_BYTES = 0x82"
definition FOUR_BYTES :: int where [simp]: "FOUR_BYTES = 0x83"
definition GLOBAL_VARIABLE_ONE_BYTE :: int where [simp]: "GLOBAL_VARIABLE_ONE_BYTE = 0xE1"
definition GLOBAL_CONSTANT_INDEX_0 :: int where [simp]: "GLOBAL_CONSTANT_INDEX_0 = 0x20"
definition GLOBAL_VARIABLE_INDEX_0 :: int where [simp]: "GLOBAL_VARIABLE_INDEX_0 = 0x60"

definition DIRECT_COMMAND_REPLY :: int where [simp]: "DIRECT_COMMAND_REPLY = 0x00"
definition DIRECT_COMMAND_NO_REPLY :: int where [simp]: "DIRECT_COMMAND_NO_REPLY = 0x80"
definition DIRECT_REPLY :: "8 word" where [simp]: "DIRECT_REPLY = 0x02"

definition OPOUTPUT_TIME_SPEED :: int where [simp]: "OPOUTPUT_TIME_SPEED = 0xAF"
definition OPOUTPUT_STOP :: int where [simp]: "OPOUTPUT_STOP = 0xA3"
definition OPOUTPUT_GET_COUNT :: int where [simp]: "OPOUTPUT_GET_COUNT = 0xB3"
definition OPINPUT_DEVICE_LIST :: int where [simp]: "OPINPUT_DEVICE_LIST = 0x98"
definition OPINPUT_READSI :: int where [simp]: "OPINPUT_READSI = 0x9D"

definition LAYER :: int where [simp]: "LAYER = 0"
definition COAST :: int where [simp]: "COAST = 0"
definition BRAKE :: int where [simp]: "BRAKE = 1"
definition RAMP :: int where [simp]: "RAMP = 50"
definition DO_NOT_CHANGE_TYPE :: int where [simp]: "DO_NOT_CHANGE_TYPE = 0"
definition MAX_DEVICES :: int where [simp]: "MAX_DEVICES = 32"

text \<open>
  \<open>Ev3Device\<close>, \<open>Ev3Mode\<close> and \<open>Ev3Label\<close> are objects used as lookup tables; a key
  that is absent (or \<open>undefined\<close>) reads as \<open>undefined\<close>, here \<open>None\<close>.
\<close>

definition Ev3Device :: "nat \<rightharpoonup> string" where
  "Ev3Device = map_of
     [(29, ''color''), (30, ''ultrasonic''), (32, ''gyro''), (16, ''touch''),
      (8, ''mediumMotor''), (7, ''largeMotor''), (126, ''none''), (125, ''none'')]"

definition Ev3Mode :: "string \<rightharpoonup> int" where
  "Ev3Mode = map_of [(''touch'', 0), (''color'', 1), (''ultrasonic'', 1), (''none'', 0)]"

definition Ev3Label :: "string \<rightharpoonup> string" where
  "Ev3Label = map_of
     [(''touch'', ''button''), (''color'', ''brightness''), (''ultrasonic'', ''distance'')]"

text \<open>\<open>Ev3Mode[port]\<close> and \<open>Ev3Label[port]\<close> for a port entry that may be \<open>undefined\<close>.\<close>

definition modeOf :: "string option \<Rightarrow> jsval" where
  "modeOf port =
     (case port of None \<Rightarrow> Undefined
      | Some t \<Rightarrow> (case Ev3Mode t of None \<Rightarrow> Undefined | Some k \<Rightarrow> Num k))"

definition labelOf :: "string option \<Rightarrow> string option" where
  "labelOf port = (case port of None \<Rightarrow> None | Some t \<Rightarrow> Ev3Label t)"

text \<open>
  \<open>const deviceType = Ev3Device[data[k]]; deviceType ? deviceType : 'none'\<close>: every value
  of the table is a non-empty string, so only a missing key is falsy.
\<close>

definition deviceTypeOrNone :: "8 word option \<Rightarrow> string" where
  "deviceTypeOrNone b =
     (case b of None \<Rightarrow> ''none''
      | Some c \<Rightarrow> (case Ev3Device (unat c) of None \<Rightarrow> ''none'' | Some t \<Rightarrow> t))"

section \<open>The command frame builder\<close>

text \<open>
  \<open>generateCommand (type, byteCommands, allocation = 0)\<close>: the header leaves indices 0 and 1
  as holes, the byte codes are appended, and the two length bytes are written last.
\<close>

definition generateCommand :: "int \<Rightarrow> jsval list \<Rightarrow> int \<Rightarrow> jsval list" where
  "generateCommand type byteCommands allocation =
     (let command = [Undefined, Undefined, Num 0, Num 0, Num type,
                     Num (js_band allocation 0xFF),
                     Num (js_land (js_shr allocation 8) 0xFF)];
          command = command @ byteCommands;
          len = int (length command) - 2;
          command = command[0 := Num (js_band len 0xFF)];
          command = command[1 := Num (js_land (js_shr len 8) 0xFF)]
      in command)"

text \<open>The length field of a frame: bytes 0 and 1 read as a little-endian number.\<close>

fun lenField :: "jsval list \<Rightarrow> int option" where
  "lenField (Num lo # Num hi # rest) = Some (lo + 256 * hi)"
| "lenField frame = None"

section \<open>EV3Motor\<close>

text \<open>
  The fields of an \<open>EV3Motor\<close>. The owning peripheral (\<open>_parent\<close>) is not a field: what a
  motor asks of it is returned as a list of effects. The type is the port entry it was
  created from, a device name. A position is an integer, or \<open>NaN\<close>
  (\<open>None\<close>) when it was decoded from missing bytes; \<open>_commandID\<close> is \<open>null\<close> (\<open>None\<close>) or
  the id of the latest coast request.
\<close>

record EV3Motor =
  m_index :: nat
  m_type :: "string option"
  m_direction :: int
  m_power :: int
  m_position :: "int option"
  m_commandID :: "string option"
  m_coastDelay :: int

definition newEV3Motor :: "nat \<Rightarrow> string option \<Rightarrow> EV3Motor" where
  "newEV3Motor index type =
     \<lparr>m_index = index, m_type = type, m_direction = 1, m_power = 50,
      m_position = Some 0, m_commandID = None, m_coastDelay = 1000\<rparr>"

text \<open>
  What a motor method does outside the motor: \<open>this._parent.send(cmd, useLimiter)\<close>, and
  \<open>setTimeout\<close> of the coast callback, which captures \<open>commandId\<close>, with its delay.
\<close>

datatype effect = ParentSend "jsval list" bool | SetTimeout string int

text \<open>The \<open>position\<close> setter: four bytes, little-endian, two's complement.\<close>

definition tachoValue :: "jsval list \<Rightarrow> int option" where
  "tachoValue array =
     (case (js_nth array 0, js_nth array 1, js_nth array 2, js_nth array 3) of
        (Some (Num a0), Some (Num a1), Some (Num a2), Some (Num a3)) \<Rightarrow>
          (let v = a0 + (a1 * 256) + (a2 * 256 * 256) + (a3 * 256 * 256 * 256)
           in Some (if v > 0x7fffffff then v - 0x100000000 else v))
      | _ \<Rightarrow> None)"

definition set_position :: "jsval list \<Rightarrow> EV3Motor \<Rightarrow> EV3Motor" where
  "set_position array m = m\<lparr>m_position := tachoValue array\<rparr>"

definition set_direction :: "int \<Rightarrow> EV3Motor \<Rightarrow> EV3Motor" where
  "set_direction v m = (if v < 0 then m\<lparr>m_direction := -1\<rparr> else m\<lparr>m_direction := 1\<rparr>)"

definition set_power :: "int \<Rightarrow> EV3Motor \<Rightarrow> EV3Motor" where
  "set_power v m = m\<lparr>m_power := v\<rparr>"

definition portMask :: "nat \<Rightarrow> int" where
  "portMask port = 2 ^ port"

definition runValues :: "int \<Rightarrow> jsval list" where
  "runValues run =
     (if run < 0x7fff then
        [Num TWO_BYTES, Num (js_band run 0xff), Num (js_band (js_shr run 8) 0xff)]
      else
        [Num FOUR_BYTES, Num (js_band run 0xff), Num (js_band (js_shr run 8) 0xff),
         Num (js_band (js_shr run 16) 0xff), Num (js_band (js_shr run 24) 0xff)])"

definition coast :: "EV3Motor \<Rightarrow> effect list" where
  "coast m =
     (if m_power m = 0 then []
      else [ParentSend
              (generateCommand DIRECT_COMMAND_NO_REPLY
                 [Num OPOUTPUT_STOP, Num LAYER, Num (portMask (m_index m)), Num COAST] 0)
              False])"

text \<open>
  \<open>coastAfter (time)\<close>; \<open>commandId\<close> is what \<open>uid()\<close> returned in this call. The callback
  handed to \<open>setTimeout\<close> is \<open>coastCallback commandId\<close>.
\<close>

definition coastAfter :: "string \<Rightarrow> int \<Rightarrow> EV3Motor \<Rightarrow> EV3Motor \<times> effect list" where
  "coastAfter commandId time m =
     (if m_power m = 0 then (m, [])
      else (m\<lparr>m_commandID := Some commandId\<rparr>,
            [SetTimeout commandId (time + m_coastDelay m)]))"

definition coastCallback :: "string \<Rightarrow> EV3Motor \<Rightarrow> EV3Motor \<times> effect list" where
  "coastCallback commandId m =
     (if m_commandID m = Some commandId then (m\<lparr>m_commandID := None\<rparr>, coast m)
      else (m, []))"

text \<open>
  The ramp-up, steady-run and ramp-down times of \<open>turnOnFor\<close>, from the absolute duration
  \<open>n\<close> (\<open>Math.floor(n / 2)\<close> is \<open>n div 2\<close>).
\<close>

definition rampValues :: "int \<Rightarrow> int \<times> int \<times> int" where
  "rampValues n =
     (let ramp = RAMP; rampup = ramp; rampdown = ramp; run = n - (ramp * 2)
      in if run < 0 then (n div 2, 0, n - n div 2) else (rampup, run, rampdown))"

definition turnOnFor :: "string \<Rightarrow> int \<Rightarrow> EV3Motor \<Rightarrow> EV3Motor \<times> effect list" where
  "turnOnFor commandId milliseconds m =
     (if m_power m = 0 then (m, [])
      else
        let port = portMask (m_index m);
            n = milliseconds;
            speed = m_power m * m_direction m;
            (speed, n) = (if speed < 0 then (-1 * speed, -1 * n) else (speed, n));
            dir = (if n < 0 then 0x100 - speed else speed);
            n = \<bar>n\<bar>;
            (rampup, run, rampdown) = rampValues n;
            runcmd = runValues run;
            byteCommand =
              ([Num OPOUTPUT_TIME_SPEED]
               @ [Num LAYER, Num port, Num ONE_BYTE, Num (js_band dir 0xff),
                  Num ONE_BYTE, Num rampup])
              @ (runcmd @ [Num ONE_BYTE, Num rampdown, Num BRAKE]);
            cmd = generateCommand DIRECT_COMMAND_NO_REPLY byteCommand 0;
            (m', timers) = coastAfter commandId milliseconds m
        in (m', ParentSend cmd True # timers))"


section \<open>Sensor readings\<close>

text \<open>
  A sensor reading is a JavaScript number that came from a 32-bit float: a rational, an
  infinity or \<open>NaN\<close>. (The sign of a zero is not kept: no operation of the extension
  tells the two zeros apart.)
\<close>

datatype jsnum = Fin rat | PosInf | NegInf | NaN

text \<open>
  \<open>new DataView(new Uint8Array([b0, b1, b2, b3]).buffer).getFloat32(0, true)\<close>: the
  IEEE-754 single whose little-endian bytes are given; a missing byte is stored as 0 by
  the \<open>Uint8Array\<close> constructor.
\<close>

definition byteOrZero :: "8 word option \<Rightarrow> int" where
  "byteOrZero b = (case b of None \<Rightarrow> 0 | Some c \<Rightarrow> uint c)"

definition getFloat32 :: "8 word option \<Rightarrow> 8 word option \<Rightarrow> 8 word option \<Rightarrow> 8 word option \<Rightarrow> jsnum" where
  "getFloat32 b0 b1 b2 b3 =
     (let bits = byteOrZero b0 + 256 * byteOrZero b1 + 65536 * byteOrZero b2
                 + 16777216 * byteOrZero b3;
          negative = (bits div 2 ^ 31 = 1);
          exponent = bits div 2 ^ 23 mod 256;
          fraction = bits mod 2 ^ 23;
          magnitude =
            (if exponent = 0 then of_int fraction / 2 ^ 149
             else of_int (2 ^ 23 + fraction) * 2 ^ nat exponent / 2 ^ 150)
      in if exponent = 255 then
           (if fraction \<noteq> 0 then NaN else if negative then NegInf else PosInf)
         else Fin (if negative then - magnitude else magnitude))"

text \<open>\<open>value ? value : 0\<close>: zero and \<open>NaN\<close> are falsy.\<close>

definition valueOrZero :: "jsnum \<Rightarrow> jsnum" where
  "valueOrZero v = (if v = NaN \<or> v = Fin 0 then Fin 0 else v)"

record sensors =
  distance :: jsnum
  brightness :: jsnum
  buttons :: "jsnum option list"

definition initialSensors :: sensors where
  "initialSensors =
     \<lparr>distance = Fin 0, brightness = Fin 0,
      buttons = [Some (Fin 0), Some (Fin 0), Some (Fin 0), Some (Fin 0)]\<rparr>"

text \<open>\<open>this._sensors[key] = v\<close> for a key that is a label of \<open>Ev3Label\<close> other than \<open>button\<close>.\<close>

definition setSensor :: "string \<Rightarrow> jsnum \<Rightarrow> sensors \<Rightarrow> sensors" where
  "setSensor key v r =
     (if key = ''distance'' then r\<lparr>distance := v\<rparr>
      else if key = ''brightness'' then r\<lparr>brightness := v\<rparr>
      else r)"

section \<open>Arithmetic on numbers: binary64\<close>

text \<open>
  A JavaScript number is an IEEE-754 double. The finite ones are rationals, and an
  arithmetic operator returns the exact result rounded to the nearest double, ties to
  the even significand. \<open>ilog2 r\<close> is the binary exponent of a positive \<open>r\<close>, the
  integer \<open>e\<close> with \<open>2 ^ e \<le> r < 2 ^ (e + 1)\<close>.
\<close>

function ilog2 :: "rat \<Rightarrow> int" where
  "ilog2 r = (if r \<le> 0 then 0
              else if 2 \<le> r then ilog2 (r / 2) + 1
              else if r < 1 then ilog2 (2 * r) - 1
              else 0)"
  by pat_completeness auto
termination
proof (relation "measure (\<lambda>r. nat \<lfloor>r\<rfloor> + 2 * nat \<lceil>1 / r\<rceil>)")
  show "wf (measure (\<lambda>r::rat. nat \<lfloor>r\<rfloor> + 2 * nat \<lceil>1 / r\<rceil>))"
    by (rule wf_measure)
next
  fix r :: rat
  assume "\<not> r \<le> 0" and big: "2 \<le> r"
  have "r / 2 \<le> r - 1"
    using big by simp
  then have "\<lfloor>r / 2\<rfloor> \<le> \<lfloor>r - 1\<rfloor>"
    by (rule floor_mono)
  then have "\<lfloor>r / 2\<rfloor> < \<lfloor>r\<rfloor>"
    by simp
  moreover have "2 \<le> \<lfloor>r\<rfloor>"
    using big by (simp add: le_floor_iff)
  ultimately have b: "nat \<lfloor>r / 2\<rfloor> < nat \<lfloor>r\<rfloor>"
    by simp
  have "0 < 1 / (r / 2)" and "1 / (r / 2) \<le> 1"
    using big by simp_all
  then have c: "\<lceil>1 / (r / 2)\<rceil> = 1"
    by (simp add: ceiling_eq_iff)
  have "0 < 1 / r" and "1 / r \<le> 1"
    using big by simp_all
  then have d: "\<lceil>1 / r\<rceil> = 1"
    by (simp add: ceiling_eq_iff)
  show "(r / 2, r) \<in> measure (\<lambda>r. nat \<lfloor>r\<rfloor> + 2 * nat \<lceil>1 / r\<rceil>)"
    unfolding in_measure c d using b by simp
next
  fix r :: rat
  assume "\<not> r \<le> 0" and "\<not> 2 \<le> r" and small: "r < 1"
  then have pos: "0 < r"
    by simp
  have z: "\<lfloor>r\<rfloor> = 0"
    using pos small by (simp add: floor_eq_iff)
  show "(2 * r, r) \<in> measure (\<lambda>r. nat \<lfloor>r\<rfloor> + 2 * nat \<lceil>1 / r\<rceil>)"
  proof (cases "2 * r < 1")
    case True
    then have f: "\<lfloor>2 * r\<rfloor> = 0"
      using pos by (simp add: floor_eq_iff)
    have "2 < 1 / r"
      using True pos by (simp add: field_simps)
    then have "1 / (2 * r) \<le> 1 / r - 1"
      by (simp add: field_simps)
    then have "\<lceil>1 / (2 * r)\<rceil> \<le> \<lceil>1 / r - 1\<rceil>"
      by (rule ceiling_mono)
    then have "\<lceil>1 / (2 * r)\<rceil> < \<lceil>1 / r\<rceil>"
      by simp
    moreover have "0 < \<lceil>1 / r\<rceil>"
      using pos by simp
    ultimately have "nat \<lceil>1 / (2 * r)\<rceil> < nat \<lceil>1 / r\<rceil>"
      by simp
    then show ?thesis
      unfolding in_measure z f by simp
  next
    case False
    have f: "\<lfloor>2 * r\<rfloor> = 1"
      using False small by (simp add: floor_eq_iff)
    have "0 < 1 / (2 * r)" and "1 / (2 * r) \<le> 1"
      using False pos by (simp_all add: field_simps)
    then have c: "\<lceil>1 / (2 * r)\<rceil> = 1"
      by (simp add: ceiling_eq_iff)
    have "1 < 1 / r" and "1 / r \<le> 2"
      using False pos small by (simp_all add: field_simps)
    then have d: "\<lceil>1 / r\<rceil> = 2"
      by (simp add: ceiling_eq_iff)
    show ?thesis
      unfolding in_measure z f c d by simp
  qed
qed

declare ilog2.simps [simp del]

text \<open>The nearest integer, ties to the even one.\<close>

definition roundEven :: "rat \<Rightarrow> int" where
  "roundEven q =
     (let f = \<lfloor>q\<rfloor>; r = q - of_int f
      in if r < 1 / 2 then f else if 1 / 2 < r then f + 1 else if even f then f else f + 1)"

text \<open>
  The nearest number with a 53-bit significand and an exponent of at least -1022 (below
  that the spacing stays \<open>2 ^ -1074\<close>, the subnormal numbers), and the double it stands
  for: an infinity from \<open>2 ^ 1024\<close> on.
\<close>

definition fl64 :: "rat \<Rightarrow> rat" where
  "fl64 x =
     (if x = 0 then 0
      else let e = max (ilog2 \<bar>x\<bar>) (- 1022);
               ulp = 2 powi (e - 52)
           in sgn x * of_int (roundEven (\<bar>x\<bar> / ulp)) * ulp)"

definition binary64 :: "rat \<Rightarrow> jsnum" where
  "binary64 x =
     (let y = fl64 x
      in if 2 ^ 1024 \<le> y then PosInf else if y \<le> - (2 ^ 1024) then NegInf else Fin y)"

text \<open>
  The operators of the \<open>distance\<close> getter, each with a numeric literal as its other
  operand: \<open>v > c\<close>, \<open>v < c\<close>, \<open>c * v\<close> and \<open>v / c\<close> for a positive \<open>c\<close>, and \<open>Math.round\<close>,
  which rounds a tie upwards. A comparison with \<open>NaN\<close> is false.
\<close>

fun js_gt :: "jsnum \<Rightarrow> rat \<Rightarrow> bool" where
  "js_gt (Fin a) c = (c < a)"
| "js_gt PosInf c = True"
| "js_gt NegInf c = False"
| "js_gt NaN c = False"

fun js_lt :: "jsnum \<Rightarrow> rat \<Rightarrow> bool" where
  "js_lt (Fin a) c = (a < c)"
| "js_lt PosInf c = False"
| "js_lt NegInf c = True"
| "js_lt NaN c = False"

fun js_times :: "rat \<Rightarrow> jsnum \<Rightarrow> jsnum" where
  "js_times c (Fin a) = binary64 (c * a)"
| "js_times c v = v"

fun js_divide :: "jsnum \<Rightarrow> rat \<Rightarrow> jsnum" where
  "js_divide (Fin a) c = binary64 (a / c)"
| "js_divide v c = v"

fun Math_round :: "jsnum \<Rightarrow> jsnum" where
  "Math_round (Fin a) = Fin (of_int \<lfloor>a + 1 / 2\<rfloor>)"
| "Math_round v = v"

section \<open>The EV3 peripheral\<close>

text \<open>
  The Bluetooth socket is outside the extension: it is modelled by its connection flag and
  the list of messages handed to \<open>sendMessage\<close> (before their base64 encoding).
\<close>

record BT =
  bt_connected :: bool
  bt_sent :: "jsval list list"

text \<open>
  The state of an \<open>EV3\<close>. Port entries are device names, \<open>None\<close> when unset; \<open>_motors\<close>
  holds a motor or \<open>null\<close> per port; \<open>_updateDevices\<close> is unset until the first poll, which
  reads as false. The rate limiter is a collaborator whose state has type \<open>'l\<close>;
  \<open>window_intervals\<close> are the interval ids registered with \<open>window\<close>.
\<close>

record 'l EV3 =
  sensorPorts :: "string option list"
  motorPorts :: "string option list"
  sensors :: sensors
  motors :: "EV3Motor option list"
  pollingCounter :: nat
  pollingIntervalID :: "nat option"
  updateDevices :: bool
  bt :: "BT option"
  rateLimiter :: 'l
  window_intervals :: "nat list"

definition newEV3 :: "'l \<Rightarrow> 'l EV3" where
  "newEV3 limiter =
     \<lparr>sensorPorts = [], motorPorts = [], sensors = initialSensors,
      motors = [None, None, None, None], pollingCounter = 0, pollingIntervalID = None,
      updateDevices = False, bt = None, rateLimiter = limiter, window_intervals = []\<rparr>"

definition clearInterval :: "nat option \<Rightarrow> 'l EV3 \<Rightarrow> 'l EV3" where
  "clearInterval i s =
     (case i of None \<Rightarrow> s
      | Some k \<Rightarrow> s\<lparr>window_intervals := removeAll k (window_intervals s)\<rparr>)"

definition reset :: "'l EV3 \<Rightarrow> 'l EV3" where
  "reset s =
     (let s = s\<lparr>sensorPorts := [], motorPorts := [], sensors := initialSensors,
                motors := [None, None, None, None]\<rparr>
      in if pollingIntervalID s \<noteq> None \<and> pollingIntervalID s \<noteq> Some 0 then
           (clearInterval (pollingIntervalID s) s)\<lparr>pollingIntervalID := None\<rparr>
         else s)"

definition isConnected :: "'l EV3 \<Rightarrow> bool" where
  "isConnected s = (case bt s of None \<Rightarrow> False | Some b \<Rightarrow> bt_connected b)"

text \<open>
  \<open>send (message, useLimiter = true)\<close>. It returns a promise: \<open>Promise.resolve()\<close> when the
  message is dropped, the promise of \<open>sendMessage\<close> otherwise. \<open>okayToSend\<close> is the rate
  limiter's method, which may change the limiter.
\<close>

datatype promise = Resolved | SendMessagePromise

definition sendMessage :: "jsval list \<Rightarrow> 'l EV3 \<Rightarrow> promise \<times> 'l EV3" where
  "sendMessage message s =
     (SendMessagePromise,
      s\<lparr>bt := map_option (\<lambda>b. b\<lparr>bt_sent := bt_sent b @ [message]\<rparr>) (bt s)\<rparr>)"

definition send :: "('l \<Rightarrow> bool \<times> 'l) \<Rightarrow> jsval list \<Rightarrow> bool \<Rightarrow> 'l EV3 \<Rightarrow> promise \<times> 'l EV3" where
  "send okayToSend message useLimiter s =
     (if \<not> isConnected s then (Resolved, s)
      else if useLimiter then
        (let (okay, limiter) = okayToSend (rateLimiter s);
             s = s\<lparr>rateLimiter := limiter\<rparr>
         in if \<not> okay then (Resolved, s) else sendMessage message s)
      else sendMessage message s)"

subsection \<open>Accessors\<close>

text \<open>
  The getters assign to nothing but their local \<open>value\<close>: they return a number and the
  peripheral as it was.
\<close>

definition get_distance :: "'l EV3 \<Rightarrow> jsnum \<times> 'l EV3" where
  "get_distance s =
     (let v = (if js_gt (distance (sensors s)) 100 then Fin 100 else distance (sensors s));
          v = (if js_lt v 0 then Fin 0 else v);
          v = js_divide (Math_round (js_times 100 v)) 100
      in (v, s))"

definition get_brightness :: "'l EV3 \<Rightarrow> jsnum \<times> 'l EV3" where
  "get_brightness s = (brightness (sensors s), s)"

definition isButtonPressed :: "nat \<Rightarrow> 'l EV3 \<Rightarrow> bool \<times> 'l EV3" where
  "isButtonPressed port s = (js_get (buttons (sensors s)) port = Some (Fin 1), s)"

subsection \<open>Polling\<close>

text \<open>
  The two loops of \<open>_pollValues\<close>. \<open>index\<close> is always the length of \<open>cmds\<close>, so every
  \<open>cmds[index + k] = v\<close> appends. The loop state is \<open>(cmds, sensorCount)\<close>.
\<close>

definition pollSensor :: "string option list \<Rightarrow> nat \<Rightarrow> jsval list \<times> nat \<Rightarrow> jsval list \<times> nat" where
  "pollSensor ports i st =
     (let (cmds, sensorCount) = st;
          cmds = (if js_get ports i \<noteq> Some ''none'' then
                    cmds @ [Num OPINPUT_READSI, Num LAYER, Num (int i), Num DO_NOT_CHANGE_TYPE,
                            modeOf (js_get ports i), Num GLOBAL_VARIABLE_ONE_BYTE,
                            Num (int sensorCount * 4)]
                  else cmds)
      in (cmds, sensorCount + 1))"

definition pollMotor :: "nat \<Rightarrow> jsval list \<times> nat \<Rightarrow> jsval list \<times> nat" where
  "pollMotor i st =
     (let (cmds, sensorCount) = st;
          cmds = cmds @ [Num OPOUTPUT_GET_COUNT, Num LAYER, Num (int i),
                         Num GLOBAL_VARIABLE_ONE_BYTE, Num (int sensorCount * 4)]
      in (cmds, sensorCount + 1))"

text \<open>The compound command and the allocation that \<open>_pollValues\<close> hands to \<open>generateCommand\<close>.\<close>

definition pollRequest :: "'l EV3 \<Rightarrow> jsval list \<times> int" where
  "pollRequest s =
     (if pollingCounter s mod 20 = 0 then
        ([Num OPINPUT_DEVICE_LIST, Num ONE_BYTE, Num MAX_DEVICES, Num GLOBAL_VARIABLE_INDEX_0,
          Num GLOBAL_VARIABLE_ONE_BYTE, Num GLOBAL_CONSTANT_INDEX_0], 33)
      else
        (let st = fold (pollSensor (sensorPorts s)) [0..<4] ([], 0);
             (cmds, sensorCount) = fold pollMotor [0..<4] st
         in (cmds, int sensorCount * 4)))"

definition pollValues :: "('l \<Rightarrow> bool \<times> 'l) \<Rightarrow> 'l EV3 \<Rightarrow> 'l EV3" where
  "pollValues okayToSend s =
     (if \<not> isConnected s then clearInterval (pollingIntervalID s) s
      else
        let (cmds, allocation) = pollRequest s;
            s = (if pollingCounter s mod 20 = 0 then s\<lparr>updateDevices := True\<rparr> else s);
            cmd = generateCommand DIRECT_COMMAND_REPLY cmds allocation;
            (p, s) = send okayToSend cmd True s
        in s\<lparr>pollingCounter := pollingCounter s + 1\<rparr>)"

subsection \<open>Replies\<close>

text \<open>The three loops of the device-list branch of \<open>_onMessage\<close>, one step each.\<close>

definition listSensor :: "8 word list \<Rightarrow> nat \<Rightarrow> 'l EV3 \<Rightarrow> 'l EV3" where
  "listSensor data i s =
     s\<lparr>sensorPorts := js_set (sensorPorts s) i (Some (deviceTypeOrNone (js_nth data (i + 5))))\<rparr>"

definition listMotor :: "8 word list \<Rightarrow> nat \<Rightarrow> 'l EV3 \<Rightarrow> 'l EV3" where
  "listMotor data i s =
     s\<lparr>motorPorts := js_set (motorPorts s) i (Some (deviceTypeOrNone (js_nth data (i + 21))))\<rparr>"

definition updateMotor :: "nat \<Rightarrow> 'l EV3 \<Rightarrow> 'l EV3" where
  "updateMotor m s =
     (let type = js_get (motorPorts s) m;
          s = (if type \<noteq> Some ''none'' \<and> js_get (motors s) m = None then
                 s\<lparr>motors := js_set (motors s) m
                      (Some (newEV3Motor m type))\<rparr>
               else s);
          s = (if type = Some ''none'' \<and> js_get (motors s) m \<noteq> None then
                 s\<lparr>motors := js_set (motors s) m None\<rparr>
               else s)
      in s)"

text \<open>
  The two loops of the value branch; the loop state is the peripheral and \<open>offset\<close>.
\<close>

definition readSensor :: "8 word list \<Rightarrow> nat \<Rightarrow> 'l EV3 \<times> nat \<Rightarrow> 'l EV3 \<times> nat" where
  "readSensor data i st =
     (let (s, offset) = st;
          v = getFloat32 (js_nth data offset) (js_nth data (offset + 1))
                (js_nth data (offset + 2)) (js_nth data (offset + 3));
          label = labelOf (js_get (sensorPorts s) i);
          s = (if label = Some ''button'' then
                 s\<lparr>sensors := (sensors s)\<lparr>buttons :=
                      js_set (buttons (sensors s)) i (Some (valueOrZero v))\<rparr>\<rparr>
               else (case label of
                       None \<Rightarrow> s
                     | Some key \<Rightarrow> s\<lparr>sensors := setSensor key (valueOrZero v) (sensors s)\<rparr>))
      in (s, offset + 4))"

definition byteVal :: "8 word option \<Rightarrow> jsval" where
  "byteVal b = (case b of None \<Rightarrow> Undefined | Some c \<Rightarrow> Num (uint c))"

definition readMotor :: "8 word list \<Rightarrow> nat \<Rightarrow> 'l EV3 \<times> nat \<Rightarrow> 'l EV3 \<times> nat" where
  "readMotor data i st =
     (let (s, offset) = st;
          positionArray = [byteVal (js_nth data offset), byteVal (js_nth data (offset + 1)),
                           byteVal (js_nth data (offset + 2)), byteVal (js_nth data (offset + 3))];
          s = (case js_get (motors s) i of
                 None \<Rightarrow> s
               | Some m \<Rightarrow> s\<lparr>motors := js_set (motors s) i (Some (set_position positionArray m))\<rparr>)
      in (s, offset + 4))"

definition onMessage :: "8 word list \<Rightarrow> 'l EV3 \<Rightarrow> 'l EV3" where
  "onMessage data s =
     (if js_nth data 4 \<noteq> Some DIRECT_REPLY then s
      else if updateDevices s then
        (let s = fold (listSensor data) [0..<4] s;
             s = fold (listMotor data) [0..<4] s;
             s = fold updateMotor [0..<4] s
         in s\<lparr>updateDevices := False\<rparr>)
      else if \<not> includes_undefined (sensorPorts s) \<and> \<not> includes_undefined (motorPorts s) then
        (let st = fold (readSensor data) [0..<4] (s, 5);
             (s, offset) = fold (readMotor data) [0..<4] st
         in s)
      else s)"


section \<open>Observations used in the statements\<close>

text \<open>
  The sensor ports that a value poll queries: those whose entry is not \<open>'none'\<close>, the test
  of the first loop of \<open>_pollValues\<close>.
\<close>

definition queriedSensors :: "string option list \<Rightarrow> nat" where
  "queriedSensors ports = length (filter (\<lambda>i. js_get ports i \<noteq> Some ''none'') [0..<4])"

text \<open>The \<open>n\<close> little-endian bytes of a number, and the number that bytes stand for.\<close>

fun leBytes :: "nat \<Rightarrow> int \<Rightarrow> int list" where
  "leBytes 0 v = []"
| "leBytes (Suc n) v = (v mod 256) # leBytes n (v div 256)"

fun leValue :: "int list \<Rightarrow> int" where
  "leValue [] = 0"
| "leValue (b # bs) = b + 256 * leValue bs"

text \<open>The frames among the effects of a motor method.\<close>

fun sentFrames :: "effect list \<Rightarrow> jsval list list" where
  "sentFrames [] = []"
| "sentFrames (ParentSend frame useLimiter # es) = frame # sentFrames es"
| "sentFrames (SetTimeout commandId delay # es) = sentFrames es"

text \<open>The stop command that \<open>coast\<close> sends for a motor.\<close>

definition coastFrame :: "EV3Motor \<Rightarrow> jsval list" where
  "coastFrame m =
     generateCommand DIRECT_COMMAND_NO_REPLY
       [Num OPOUTPUT_STOP, Num LAYER, Num (portMask (m_index m)), Num COAST] 0"

subsection \<open>A motor, its timers and what it sent\<close>

text \<open>
  The single-threaded event loop around one motor: the clock, the pending timeouts (due
  time and captured \<open>commandId\<close>, in the order of their registration) and the calls of
  \<open>this._parent.send\<close> made so far. \<open>setTimeout\<close> treats a negative delay as 0; the
  pending timeout that is due first fires first, the earlier registered one among equals.
\<close>

record world =
  w_motor :: EV3Motor
  w_now :: int
  w_timers :: "(int \<times> string) list"
  w_sent :: "(jsval list \<times> bool) list"

definition newWorld :: "EV3Motor \<Rightarrow> world" where
  "newWorld m = \<lparr>w_motor = m, w_now = 0, w_timers = [], w_sent = []\<rparr>"

fun applyEffect :: "effect \<Rightarrow> world \<Rightarrow> world" where
  "applyEffect (ParentSend frame useLimiter) w = w\<lparr>w_sent := w_sent w @ [(frame, useLimiter)]\<rparr>"
| "applyEffect (SetTimeout commandId delay) w =
     w\<lparr>w_timers := w_timers w @ [(w_now w + max 0 delay, commandId)]\<rparr>"

definition callTurnOnFor :: "string \<Rightarrow> int \<Rightarrow> world \<Rightarrow> world" where
  "callTurnOnFor commandId milliseconds w =
     (let (m, es) = turnOnFor commandId milliseconds (w_motor w)
      in fold applyEffect es (w\<lparr>w_motor := m\<rparr>))"

fun earliest :: "(int \<times> string) list \<Rightarrow> (int \<times> string) option" where
  "earliest [] = None"
| "earliest (t # ts) =
     (case earliest ts of
        None \<Rightarrow> Some t
      | Some u \<Rightarrow> if fst t \<le> fst u then Some t else Some u)"

definition fireNext :: "world \<Rightarrow> world" where
  "fireNext w =
     (case earliest (w_timers w) of
        None \<Rightarrow> w
      | Some t \<Rightarrow>
          (let w = w\<lparr>w_timers := remove1 t (w_timers w), w_now := max (w_now w) (fst t)\<rparr>;
               (m, es) = coastCallback (snd t) (w_motor w)
           in fold applyEffect es (w\<lparr>w_motor := m\<rparr>)))"

text \<open>A callback registers no timeout, so firing once per pending timeout fires them all.\<close>

definition runTimers :: "world \<Rightarrow> world" where
  "runTimers w = (fireNext ^^ length (w_timers w)) w"

text \<open>The calls of \<open>this._parent.send\<close> so far that carried the motor's stop command.\<close>

definition coastSends :: "world \<Rightarrow> nat" where
  "coastSends w = length (filter (\<lambda>x. fst x = coastFrame (w_motor w)) (w_sent w))"

text \<open>A reading brought into the range from 0 to 100 (\<open>NaN\<close> is in no range).\<close>

fun clampTo100 :: "jsnum \<Rightarrow> rat" where
  "clampTo100 (Fin a) = max 0 (min 100 a)"
| "clampTo100 PosInf = 100"
| "clampTo100 NegInf = 0"
| "clampTo100 NaN = 0"

section \<open>Sample sessions\<close>

text \<open>
  A connected peripheral after one discovery round: a touch sensor, an ultrasonic sensor
  and a colour sensor, and motors on ports A and C. Its rate limiter is a counter of the
  calls of \<open>okayToSend\<close>.
\<close>

definition sampleEV3 :: "nat EV3" where
  "sampleEV3 =
     \<lparr>sensorPorts = [Some ''touch'', Some ''none'', Some ''ultrasonic'', Some ''color''],
      motorPorts = [Some ''largeMotor'', Some ''none'', Some ''mediumMotor'', Some ''none''],
      sensors = initialSensors,
      motors = [Some (newEV3Motor 0 (Some ''largeMotor'')), None,
                Some (newEV3Motor 2 (Some ''mediumMotor'')), None],
      pollingCounter = 1, pollingIntervalID = Some 7, updateDevices = False,
      bt = Some \<lparr>bt_connected = True, bt_sent = []\<rparr>, rateLimiter = 0,
      window_intervals = [7]\<rparr>"

text \<open>
  A device-list reply: sensors as above on the input ports, nothing on the output ports
  but for port C (byte 23), where it reports the device code \<open>c\<close>.
\<close>

definition sampleDeviceList :: "8 word \<Rightarrow> 8 word list" where
  "sampleDeviceList c =
     [35, 0, 0, 0, 2, 16, 126, 30, 29, 126, 126, 126, 126, 126, 126, 126, 126, 126, 126,
      126, 126, 126, 126, c, 126]"

text \<open>
  A value reply: button pressed on port 1, distance 42.345 (as a single) on port 3,
  brightness 1 on port 4, and the positions -1, 0x04030201, -2147483648 and 0x05050505.
\<close>

definition sampleValues :: "8 word list" where
  "sampleValues =
     [35, 0, 0, 0, 2, 0, 0, 0x80, 0x3f, 0, 0, 0, 0, 0x48, 0x61, 0x29, 0x42,
      0, 0, 0x80, 0x3f, 0xff, 0xff, 0xff, 0xff, 1, 2, 3, 4, 0, 0, 0, 0x80, 5, 5, 5, 5]"

definition countingLimiter :: "nat \<Rightarrow> bool \<times> nat" where
  "countingLimiter n = (n < 40, Suc n)"

section \<open>Properties of the operators\<close>

lemma toInt32_sint: "toInt32 x = sint (word_of_int x :: 32 word)"
  by (simp add: toInt32_def int_word_sint)

lemma toInt32_small: "- (2 ^ 31) \<le> x \<Longrightarrow> x < 2 ^ 31 \<Longrightarrow> toInt32 x = x"
  by (simp add: toInt32_def)

lemma toInt32_mod256: "toInt32 x mod 256 = x mod 256"
proof -
  have "toInt32 x = x - 2 ^ 32 * ((x + 2 ^ 31) div 2 ^ 32)"
    unfolding toInt32_def by (simp add: minus_mult_div_eq_mod [symmetric])
  then have "toInt32 x = x + 256 * (- (2 ^ 24) * ((x + 2 ^ 31) div 2 ^ 32))"
    by simp
  then show ?thesis
    by (metis mod_mult_self2)
qed

lemma and_255: "(k::int) AND 255 = k mod 256"
proof -
  have "k AND mask 8 = take_bit 8 k"
    by (simp add: take_bit_eq_mask)
  then show ?thesis
    by (simp add: take_bit_eq_mod mask_eq_exp_minus_1)
qed

lemma js_band_ff: "js_band x 0xFF = x mod 256"
  by (simp add: js_band_def toInt32_small and_255 toInt32_mod256)

lemma js_shr_small: "0 \<le> x \<Longrightarrow> x < 256 \<Longrightarrow> js_shr x 8 = 0"
  by (simp add: js_shr_def toInt32_small)

section \<open>The command frame\<close>

lemma generateCommand_length: "length (generateCommand t bc a) = 7 + length bc"
  by (simp add: generateCommand_def Let_def)

text \<open>
  With at most 250 bytes of byte codes the length field is the frame length minus 2.
\<close>

lemma lenField_short:
  assumes "length bc < 251"
  shows "lenField (generateCommand t bc a) = Some (int (length (generateCommand t bc a)) - 2)"
proof -
  have "js_shr (5 + int (length bc)) 8 = 0"
    using assms by (simp add: js_shr_small)
  moreover have "js_band (5 + int (length bc)) 0xFF = 5 + int (length bc)"
    using assms by (simp add: js_band_ff)
  ultimately show ?thesis
    by (simp add: generateCommand_def Let_def js_land_def)
qed

text \<open>
  C1. The length field of a frame is its length minus 2. At 251 bytes of byte codes the
  frame has 258 bytes, so the field should read 256, bytes \<open>0x00 0x01\<close>; the high byte is
  computed as \<open>len >> 8 && 0xFF\<close>, which is \<open>0xFF\<close> for every non-zero \<open>len >> 8\<close>, and the
  field reads 65280.
\<close>

theorem generateCommand_lenField_at_251:
  "length (generateCommand DIRECT_COMMAND_NO_REPLY (replicate 251 (Num 0)) 0) = 258 \<and>
   lenField (generateCommand DIRECT_COMMAND_NO_REPLY (replicate 251 (Num 0)) 0) = Some 65280"
  by (simp add: generateCommand_def js_band_def js_shr_def js_land_def toInt32_def)

section \<open>The position setter\<close>

lemma uint8_bounds: "0 \<le> uint (b::8 word) \<and> uint b < 256"
  using uint_lt2p [of b] by simp

lemma tachoValue_bytes:
  "tachoValue [byteVal (Some b0), byteVal (Some b1), byteVal (Some b2), byteVal (Some b3)] =
     (let u = uint b0 + 256 * uint b1 + 65536 * uint b2 + 16777216 * uint b3
      in Some (if u > 0x7FFFFFFF then u - 0x100000000 else u))"
  by (simp add: tachoValue_def byteVal_def js_nth_def Let_def)

lemma sint32_of_unsigned:
  assumes "0 \<le> u" and "u < 2 ^ 32"
  shows "sint (word_of_int u :: 32 word) = (if u > 0x7FFFFFFF then u - 0x100000000 else u)"
proof (cases "u > 0x7FFFFFFF")
  case True
  then have "(u + 2 ^ 31) mod 2 ^ 32 = u + 2 ^ 31 - 2 ^ 32"
    using assms by (simp add: mod_pos_geq)
  then show ?thesis
    using True by (simp add: int_word_sint)
next
  case False
  then have "(u + 2 ^ 31) mod 2 ^ 32 = u + 2 ^ 31"
    using assms by simp
  then show ?thesis
    using False by (simp add: int_word_sint)
qed

text \<open>
  C4. The position setter reads its four bytes as a little-endian unsigned number and
  subtracts \<open>0x100000000\<close> when that exceeds \<open>0x7FFFFFFF\<close>, which is the two's-complement
  value of the 32-bit word; \<open>0x7FFFFFFF\<close>, \<open>0x80000000\<close> and \<open>0xFFFFFFFF\<close> decode to
  2147483647, -2147483648 and -1.
\<close>

theorem position_twos_complement:
  "m_position (set_position [Num 0xFF, Num 0xFF, Num 0xFF, Num 0x7F] m) = Some 2147483647 \<and>
   m_position (set_position [Num 0x00, Num 0x00, Num 0x00, Num 0x80] m) = Some (- 2147483648) \<and>
   m_position (set_position [Num 0xFF, Num 0xFF, Num 0xFF, Num 0xFF] m) = Some (- 1) \<and>
   (let array = [byteVal (Some b0), byteVal (Some b1), byteVal (Some b2), byteVal (Some b3)];
        u = uint b0 + 256 * uint b1 + 65536 * uint b2 + 16777216 * uint b3
    in m_position (set_position array m) = Some (if u > 0x7FFFFFFF then u - 0x100000000 else u) \<and>
       m_position (set_position array m) = Some (sint (word_of_int u :: 32 word)))"
proof -
  define u where "u = uint b0 + 256 * uint b1 + 65536 * uint b2 + 16777216 * uint b3"
  have "0 \<le> u" and "u < 2 ^ 32"
    using uint8_bounds [of b0] uint8_bounds [of b1] uint8_bounds [of b2] uint8_bounds [of b3]
    by (simp_all add: u_def)
  then have "sint (word_of_int u :: 32 word) = (if u > 0x7FFFFFFF then u - 0x100000000 else u)"
    by (rule sint32_of_unsigned)
  moreover have "m_position (set_position
      [byteVal (Some b0), byteVal (Some b1), byteVal (Some b2), byteVal (Some b3)] m)
      = Some (if u > 0x7FFFFFFF then u - 0x100000000 else u)"
    by (simp add: set_position_def tachoValue_bytes u_def Let_def)
  moreover have "m_position (set_position [Num 0xFF, Num 0xFF, Num 0xFF, Num 0x7F] m) = Some 2147483647"
    by (simp add: set_position_def tachoValue_def js_nth_def)
  moreover have "m_position (set_position [Num 0x00, Num 0x00, Num 0x00, Num 0x80] m) = Some (- 2147483648)"
    by (simp add: set_position_def tachoValue_def js_nth_def)
  moreover have "m_position (set_position [Num 0xFF, Num 0xFF, Num 0xFF, Num 0xFF] m) = Some (- 1)"
    by (simp add: set_position_def tachoValue_def js_nth_def)
  ultimately show ?thesis
    by (simp add: Let_def u_def)
qed

section \<open>Replies that are not a direct reply\<close>

text \<open>
  C5. A reply whose byte 4 is not \<open>DIRECT_REPLY\<close> changes nothing in the peripheral: not
  the ports, the readings, the motors or their positions. A buffer of fewer than 5 bytes
  has no byte 4 and is such a reply.
\<close>

theorem onMessage_not_direct_reply:
  "(js_nth data 4 \<noteq> Some DIRECT_REPLY \<longrightarrow> onMessage data s = s) \<and>
   (length data < 5 \<longrightarrow> onMessage data s = s)"
  by (simp add: onMessage_def js_nth_def)

theorem onMessage_not_direct_reply_witness:
  "js_nth [9, 0, 1, 0, 4, 16, 126, 30, 29 :: 8 word] 4 \<noteq> Some DIRECT_REPLY \<and>
   onMessage [9, 0, 1, 0, 4, 16, 126, 30, 29] sampleEV3 = sampleEV3 \<and>
   length [2, 0 :: 8 word] < 5 \<and>
   onMessage [2, 0] (sampleEV3\<lparr>updateDevices := True\<rparr>) = sampleEV3\<lparr>updateDevices := True\<rparr>"
  using onMessage_not_direct_reply [of "[9, 0, 1, 0, 4, 16, 126, 30, 29]" sampleEV3]
    onMessage_not_direct_reply [of "[2, 0]" "sampleEV3\<lparr>updateDevices := True\<rparr>"]
  by (simp add: js_nth_def)

section \<open>Sending while disconnected\<close>

text \<open>
  C10. When the transport is not connected, \<open>send\<close> returns \<open>Promise.resolve()\<close> and
  leaves the peripheral as it was, whatever the rate limiter's \<open>okayToSend\<close> would have
  done and whatever \<open>useLimiter\<close> is: the limiter is not consulted and nothing is handed
  to the socket.
\<close>

theorem send_disconnected:
  "\<not> isConnected s \<Longrightarrow> send okayToSend message useLimiter s = (Resolved, s)"
  by (simp add: send_def)

theorem send_disconnected_witness:
  "\<not> isConnected (sampleEV3\<lparr>bt := Some \<lparr>bt_connected = False, bt_sent = []\<rparr>\<rparr>) \<and>
   send countingLimiter [Num 0] True (sampleEV3\<lparr>bt := Some \<lparr>bt_connected = False, bt_sent = []\<rparr>\<rparr>)
     = (Resolved, sampleEV3\<lparr>bt := Some \<lparr>bt_connected = False, bt_sent = []\<rparr>\<rparr>) \<and>
   rateLimiter (snd (send countingLimiter [Num 0] True sampleEV3)) = 1"
proof -
  have h: "\<not> isConnected (sampleEV3\<lparr>bt := Some \<lparr>bt_connected = False, bt_sent = []\<rparr>\<rparr>)"
    by (simp add: isConnected_def)
  have "rateLimiter (snd (send countingLimiter [Num 0] True sampleEV3)) = 1"
    by (simp add: send_def isConnected_def sampleEV3_def countingLimiter_def sendMessage_def)
  with h send_disconnected [OF h, of countingLimiter "[Num 0]" True] show ?thesis
    by simp
qed

section \<open>The allocation of a value poll\<close>

lemma upt_4: "[0..<4] = [0, 1, 2, 3]"
  by (simp add: upt_rec)

lemma pollRequest_allocation:
  "pollingCounter s mod 20 \<noteq> 0 \<Longrightarrow> snd (pollRequest s) = 32"
  by (simp add: pollRequest_def upt_4 pollSensor_def pollMotor_def Let_def split_def)

lemma pollRequest_length:
  "pollingCounter s mod 20 \<noteq> 0 \<Longrightarrow>
     length (fst (pollRequest s)) = 7 * queriedSensors (sensorPorts s) + 5 * 4"
  by (simp add: pollRequest_def upt_4 pollSensor_def pollMotor_def Let_def split_def
      queriedSensors_def)

lemma queriedSensors_le: "queriedSensors ports \<le> 4"
proof -
  have "queriedSensors ports \<le> length [0..<4]"
    unfolding queriedSensors_def by (rule length_filter_le)
  then show ?thesis by simp
qed

lemma pollValues_sent:
  assumes "isConnected s" and "fst (okayToSend (rateLimiter s))"
  shows "map_option bt_sent (bt (pollValues okayToSend s)) =
         map_option (\<lambda>b. bt_sent b @ [generateCommand DIRECT_COMMAND_REPLY
            (fst (pollRequest s)) (snd (pollRequest s))]) (bt s)"
  using assms
  by (cases "bt s")
     (simp_all add: pollValues_def send_def sendMessage_def isConnected_def split_def Let_def)

text \<open>
  C2, as stated: on a value poll the allocation is 4 bytes for each opcode issued. With
  sensors on three ports, seven opcodes are issued and the allocation is 32, not 28.
\<close>

theorem pollRequest_allocation_counterexample:
  "pollingCounter sampleEV3 mod 20 \<noteq> 0 \<and>
   queriedSensors (sensorPorts sampleEV3) = 3 \<and>
   length (fst (pollRequest sampleEV3)) = 7 * 3 + 5 * 4 \<and>
   snd (pollRequest sampleEV3) = 32 \<and>
   snd (pollRequest sampleEV3) \<noteq> 4 * (int (queriedSensors (sensorPorts sampleEV3)) + 4)"
  by (simp add: pollRequest_def upt_4 pollSensor_def pollMotor_def Let_def split_def
      queriedSensors_def sampleEV3_def js_get_def)

text \<open>
  C2, amended: on a value poll the allocation handed to \<open>generateCommand\<close> is
  \<open>4 * (4 + 4) = 32\<close>, four bytes for each of the four sensor ports, queried or not, and
  for each of the four position reads. The compound command holds one 7-byte read per
  queried port and four 5-byte position reads, so the allocation is four times the
  number of opcodes exactly when all four sensor ports are queried.
\<close>

theorem pollRequest_allocation_all_ports:
  assumes "pollingCounter s mod 20 \<noteq> 0"
  shows "snd (pollRequest s) = 4 * (4 + 4) \<and>
         length (fst (pollRequest s)) = 7 * queriedSensors (sensorPorts s) + 5 * 4 \<and>
         (snd (pollRequest s) = 4 * (int (queriedSensors (sensorPorts s)) + 4))
           = (queriedSensors (sensorPorts s) = 4) \<and>
         (isConnected s \<and> fst (okayToSend (rateLimiter s)) \<longrightarrow>
            map_option bt_sent (bt (pollValues okayToSend s)) =
            map_option (\<lambda>b. bt_sent b @ [generateCommand DIRECT_COMMAND_REPLY
               (fst (pollRequest s)) 32]) (bt s))"
proof -
  have a: "snd (pollRequest s) = 32"
    using assms by (rule pollRequest_allocation)
  have l: "length (fst (pollRequest s)) = 7 * queriedSensors (sensorPorts s) + 5 * 4"
    using assms by (rule pollRequest_length)
  have "(32 = 4 * (int (queriedSensors (sensorPorts s)) + 4))
          = (queriedSensors (sensorPorts s) = 4)"
    by auto
  with a l pollValues_sent [of s okayToSend] show ?thesis
    by simp
qed

theorem pollRequest_allocation_all_ports_witness:
  "pollingCounter sampleEV3 mod 20 \<noteq> 0 \<and>
   isConnected sampleEV3 \<and> fst (countingLimiter (rateLimiter sampleEV3)) \<and>
   snd (pollRequest sampleEV3) = 32 \<and>
   length (fst (pollRequest sampleEV3)) = 41 \<and>
   queriedSensors (sensorPorts sampleEV3) \<noteq> 4 \<and>
   map_option bt_sent (bt (pollValues countingLimiter sampleEV3)) =
     Some [generateCommand DIRECT_COMMAND_REPLY (fst (pollRequest sampleEV3)) 32]"
proof -
  have h: "pollingCounter sampleEV3 mod 20 \<noteq> 0"
    by (simp add: sampleEV3_def)
  have c: "isConnected sampleEV3 \<and> fst (countingLimiter (rateLimiter sampleEV3))"
    by (simp add: sampleEV3_def isConnected_def countingLimiter_def)
  have q: "queriedSensors (sensorPorts sampleEV3) = 3"
    by (simp add: queriedSensors_def sampleEV3_def js_get_def upt_4)
  have b: "bt sampleEV3 = Some \<lparr>bt_connected = True, bt_sent = []\<rparr>"
    by (simp add: sampleEV3_def)
  from pollRequest_allocation_all_ports [OF h, of countingLimiter] h c q b show ?thesis
    by simp
qed

section \<open>The steady-run operand\<close>

lemma toInt32_shape: "toInt32 x = x + 2 ^ 32 * (- ((x + 2 ^ 31) div 2 ^ 32))"
  unfolding toInt32_def by (simp add: minus_mult_div_eq_mod [symmetric])

lemma shifted_byte:
  assumes "y = x + d * (256 * c)" and "0 < d"
  shows "(y div d) mod 256 = (x div d) mod (256::int)"
proof -
  have "y div d = 256 * c + x div d"
    using assms by simp
  then show ?thesis
    by (simp add: add.commute)
qed

lemma js_shr_byte:
  "js_shr x 8 mod 256 = x div 256 mod 256"
  "js_shr x 16 mod 256 = x div 65536 mod 256"
  "js_shr x 24 mod 256 = x div 16777216 mod 256"
proof -
  define q where "q = - ((x + 2 ^ 31) div (2 ^ 32 :: int))"
  have t: "toInt32 x = x + 2 ^ 32 * q"
    unfolding q_def by (rule toInt32_shape)
  have "toInt32 x = x + 256 * (256 * (2 ^ 16 * q))"
    using t by simp
  then have "toInt32 x div 256 mod 256 = x div 256 mod 256"
    by (rule shifted_byte) simp
  then show "js_shr x 8 mod 256 = x div 256 mod 256"
    by (simp add: js_shr_def)
  have "toInt32 x = x + 65536 * (256 * (2 ^ 8 * q))"
    using t by simp
  then have "toInt32 x div 65536 mod 256 = x div 65536 mod 256"
    by (rule shifted_byte) simp
  then show "js_shr x 16 mod 256 = x div 65536 mod 256"
    by (simp add: js_shr_def)
  have "toInt32 x = x + 16777216 * (256 * q)"
    using t by simp
  then have "toInt32 x div 16777216 mod 256 = x div 16777216 mod 256"
    by (rule shifted_byte) simp
  then show "js_shr x 24 mod 256 = x div 16777216 mod 256"
    by (simp add: js_shr_def)
qed

lemma leValue_leBytes: "leValue (leBytes n v) = v mod 256 ^ n"
proof (induction n arbitrary: v)
  case 0
  then show ?case by simp
next
  case (Suc n)
  have "v mod (256 * 256 ^ n) = 256 * (v div 256 mod 256 ^ n) + v mod 256"
    by (rule zmod_zmult2_eq) simp
  with Suc show ?case by simp
qed

lemma leBytes_2: "leBytes 2 v = [v mod 256, v div 256 mod 256]"
  by (simp add: numeral_2_eq_2)

lemma leBytes_4:
  "leBytes 4 v = [v mod 256, v div 256 mod 256, v div 65536 mod 256, v div 16777216 mod 256]"
proof -
  have four: "(4::nat) = Suc (Suc (Suc (Suc 0)))"
    by simp
  have "leBytes 4 v =
      [v mod 256, v div 256 mod 256, v div 256 div 256 mod 256, v div 256 div 256 div 256 mod 256]"
    by (simp add: four)
  moreover have "v div 256 div 256 = v div 65536"
    by (simp add: zdiv_zmult2_eq [symmetric])
  moreover have "v div 256 div 256 div 256 = v div 16777216"
    by (simp add: zdiv_zmult2_eq [symmetric])
  ultimately show ?thesis
    by simp
qed

lemma runValues_two_bytes:
  "run < 0x7fff \<Longrightarrow> runValues run = Num 0x82 # map Num (leBytes 2 run)"
  by (simp add: runValues_def leBytes_2 js_band_ff js_shr_byte)

lemma runValues_four_bytes:
  "0x7fff \<le> run \<Longrightarrow> runValues run = Num 0x83 # map Num (leBytes 4 run)"
  by (simp add: runValues_def leBytes_4 js_band_ff js_shr_byte)

lemma rampValues_run: "0 \<le> n \<Longrightarrow> fst (snd (rampValues n)) = max 0 (n - 100)"
  by (simp add: rampValues_def Let_def)

lemma turnOnFor_frame:
  assumes "m_power m \<noteq> 0"
  shows "\<exists>pre post. length pre = 7 \<and> length post = 3 \<and>
     sentFrames (snd (turnOnFor commandId milliseconds m)) =
       [generateCommand DIRECT_COMMAND_NO_REPLY
          (pre @ runValues (fst (snd (rampValues \<bar>milliseconds\<bar>))) @ post) 0]"
proof -
  obtain rampup run rampdown where r: "rampValues \<bar>milliseconds\<bar> = (rampup, run, rampdown)"
    by (cases "rampValues \<bar>milliseconds\<bar>") auto
  define speed where "speed = m_power m * m_direction m"
  define dir where
    "dir = (if speed < 0 then (if - milliseconds < 0 then 0x100 - (- speed) else - speed)
            else (if milliseconds < 0 then 0x100 - speed else speed))"
  define pre where "pre = [Num OPOUTPUT_TIME_SPEED, Num LAYER, Num (portMask (m_index m)),
      Num ONE_BYTE, Num (js_band dir 0xff), Num ONE_BYTE, Num rampup]"
  define post where "post = [Num ONE_BYTE, Num rampdown, Num BRAKE]"
  have "sentFrames (snd (turnOnFor commandId milliseconds m)) =
       [generateCommand DIRECT_COMMAND_NO_REPLY (pre @ runValues run @ post) 0]"
    using assms r
    by (simp add: turnOnFor_def coastAfter_def Let_def split_def pre_def post_def dir_def
        speed_def)
  moreover have "length pre = 7" and "length post = 3"
    by (simp_all add: pre_def post_def)
  ultimately show ?thesis
    using r by auto
qed

text \<open>
  C3, as stated: a steady-run length is sent as a 2-byte operand if and only if it is at
  most \<open>0x7FFF\<close>. \<open>turnOnFor (32867)\<close> computes the run length \<open>0x7FFF\<close> and sends it as a
  4-byte operand.
\<close>

theorem runValues_0x7FFF_counterexample:
  "fst (snd (rampValues \<bar>32867\<bar>)) = 0x7FFF \<and>
   runValues 0x7FFF = [Num FOUR_BYTES, Num 0xFF, Num 0x7F, Num 0, Num 0] \<and>
   sentFrames (snd (turnOnFor ''id'' 32867 (newEV3Motor 2 (Some ''largeMotor'')))) =
     [[Num 20, Num 0, Num 0, Num 0, Num 0x80, Num 0, Num 0,
       Num 0xAF, Num 0, Num 4, Num 0x81, Num 50, Num 0x81, Num 50,
       Num 0x83, Num 0xFF, Num 0x7F, Num 0, Num 0,
       Num 0x81, Num 50, Num 1]]"
  by (simp add: rampValues_def runValues_def turnOnFor_def coastAfter_def newEV3Motor_def
      generateCommand_def portMask_def js_band_def js_shr_def js_land_def toInt32_def Let_def)

text \<open>
  C3, amended: the steady-run length that \<open>turnOnFor\<close> computes, \<open>max 0 (|ms| - 100)\<close>, is
  in the frame it sends, after 7 bytes of header and 7 bytes of opcode and operands, as
  tag \<open>0x82\<close> and its two little-endian bytes if and only if it is less than \<open>0x7FFF\<close>,
  and as tag \<open>0x83\<close> and the four little-endian bytes of its low 32 bits otherwise.
\<close>

theorem turnOnFor_run_operand:
  assumes "m_power m \<noteq> 0"
  shows "let run = fst (snd (rampValues \<bar>milliseconds\<bar>)) in
     run = max 0 (\<bar>milliseconds\<bar> - 100) \<and>
     (\<exists>pre post. length pre = 7 \<and> length post = 3 \<and>
        sentFrames (snd (turnOnFor commandId milliseconds m)) =
          [generateCommand DIRECT_COMMAND_NO_REPLY (pre @ runValues run @ post) 0]) \<and>
     (run < 0x7FFF \<longrightarrow>
        runValues run = Num 0x82 # map Num (leBytes 2 run) \<and> leValue (leBytes 2 run) = run) \<and>
     (0x7FFF \<le> run \<longrightarrow>
        runValues run = Num 0x83 # map Num (leBytes 4 run) \<and>
        leValue (leBytes 4 run) = run mod 2 ^ 32)"
proof -
  define run where "run = fst (snd (rampValues \<bar>milliseconds\<bar>))"
  have r: "run = max 0 (\<bar>milliseconds\<bar> - 100)"
    unfolding run_def by (rule rampValues_run) simp
  have f: "\<exists>pre post. length pre = 7 \<and> length post = 3 \<and>
        sentFrames (snd (turnOnFor commandId milliseconds m)) =
          [generateCommand DIRECT_COMMAND_NO_REPLY (pre @ runValues run @ post) 0]"
    unfolding run_def using assms by (rule turnOnFor_frame)
  have two: "leValue (leBytes 2 run) = run" if "run < 0x7FFF"
  proof -
    have "0 \<le> run" using r by simp
    with that have "run mod 256 ^ 2 = run" by simp
    then show ?thesis by (simp only: leValue_leBytes)
  qed
  have four: "leValue (leBytes 4 run) = run mod 2 ^ 32"
    by (simp add: leValue_leBytes)
  show ?thesis
    unfolding Let_def run_def [symmetric]
    using r f two four runValues_two_bytes [of run] runValues_four_bytes [of run]
    by blast
qed

theorem turnOnFor_run_operand_witness:
  "m_power (newEV3Motor 2 (Some ''largeMotor'')) \<noteq> 0 \<and>
   fst (snd (rampValues \<bar>100\<bar>)) < 0x7FFF \<and>
   runValues (fst (snd (rampValues \<bar>100\<bar>))) = [Num 0x82, Num 0, Num 0] \<and>
   0x7FFF \<le> fst (snd (rampValues \<bar>- 40000\<bar>)) \<and>
   runValues (fst (snd (rampValues \<bar>- 40000\<bar>))) = [Num 0x83, Num 0xDC, Num 0x9B, Num 0, Num 0]"
proof -
  have h: "m_power (newEV3Motor 2 (Some ''largeMotor'')) \<noteq> 0"
    by (simp add: newEV3Motor_def)
  have a: "fst (snd (rampValues \<bar>100\<bar>)) = 0" and b: "fst (snd (rampValues \<bar>- 40000\<bar>)) = 39900"
    by (simp_all add: rampValues_def)
  have four: "(4::nat) = Suc (Suc (Suc (Suc 0)))"
    by simp
  from h a b turnOnFor_run_operand [OF h, of 100 "''id''"]
    turnOnFor_run_operand [OF h, of "- 40000" "''id''"]
  show ?thesis
    by (simp add: Let_def numeral_2_eq_2 four)
qed

section \<open>Arrays with missing elements\<close>

lemma js_get_js_set: "js_get (js_set xs i v) j = (if j = i then v else js_get xs j)"
  by (auto simp: js_get_def js_set_def nth_append)

section \<open>Discovery\<close>

lemma listSensor_fields [simp]:
  "motorPorts (listSensor data i s) = motorPorts s"
  "motors (listSensor data i s) = motors s"
  "sensors (listSensor data i s) = sensors s"
  by (simp_all add: listSensor_def)

lemma listMotor_fields [simp]:
  "motors (listMotor data i s) = motors s"
  "sensors (listMotor data i s) = sensors s"
  "js_get (motorPorts (listMotor data i s)) j =
     (if j = i then Some (deviceTypeOrNone (js_nth data (i + 21))) else js_get (motorPorts s) j)"
  by (simp_all add: listMotor_def js_get_js_set)

lemma updateMotor_fields [simp]:
  "motorPorts (updateMotor m s) = motorPorts s"
  "sensors (updateMotor m s) = sensors s"
  by (simp_all add: updateMotor_def Let_def)

lemma updateMotor_motors:
  "js_get (motors (updateMotor m s)) j =
     (if j = m then
        (case js_get (motorPorts s) m of
           None \<Rightarrow> (case js_get (motors s) m of None \<Rightarrow> Some (newEV3Motor m None) | Some x \<Rightarrow> Some x)
         | Some t \<Rightarrow>
             if t = ''none'' then None
             else (case js_get (motors s) m of None \<Rightarrow> Some (newEV3Motor m (Some t)) | Some x \<Rightarrow> Some x))
      else js_get (motors s) j)"
  by (auto simp: updateMotor_def Let_def js_get_js_set split: option.splits)

lemma lt_4_cases: "m < 4 \<Longrightarrow> m = 0 \<or> m = 1 \<or> m = 2 \<or> m = (3::nat)"
  by arith

lemma deviceList_motors:
  assumes "js_nth data 4 = Some DIRECT_REPLY" and "updateDevices s" and "m < 4"
  shows "js_get (motors (onMessage data s)) m =
     (if deviceTypeOrNone (js_nth data (m + 21)) = ''none'' then None
      else (case js_get (motors s) m of
              None \<Rightarrow> Some (newEV3Motor m (Some (deviceTypeOrNone (js_nth data (m + 21)))))
            | Some x \<Rightarrow> Some x))"
  using assms(1,2) lt_4_cases [OF assms(3)]
  by (auto simp: onMessage_def upt_4 updateMotor_motors Let_def split: option.splits)

lemma deviceList_sensors:
  "updateDevices s \<Longrightarrow> sensors (onMessage data s) = sensors s"
  by (simp add: onMessage_def upt_4 Let_def)

text \<open>
  C8. After a device-list reply is processed, port \<open>m\<close> holds a motor if and only if the
  type reported for it (byte \<open>21 + m\<close> of the reply, through \<open>Ev3Device\<close>) is not \<open>'none'\<close>:
  a motor is created where a type is reported and none existed, an existing motor is kept
  where a type is reported, and the motor is removed where \<open>'none'\<close> is reported.
\<close>

theorem deviceList_motor_lifetime:
  assumes "js_nth data 4 = Some DIRECT_REPLY" and "updateDevices s" and "m < 4"
  shows "(js_get (motors (onMessage data s)) m \<noteq> None)
           = (deviceTypeOrNone (js_nth data (m + 21)) \<noteq> ''none'') \<and>
         (js_get (motors s) m = None \<and> deviceTypeOrNone (js_nth data (m + 21)) \<noteq> ''none'' \<longrightarrow>
            js_get (motors (onMessage data s)) m
              = Some (newEV3Motor m (Some (deviceTypeOrNone (js_nth data (m + 21)))))) \<and>
         (js_get (motors s) m \<noteq> None \<and> deviceTypeOrNone (js_nth data (m + 21)) \<noteq> ''none'' \<longrightarrow>
            js_get (motors (onMessage data s)) m = js_get (motors s) m) \<and>
         (deviceTypeOrNone (js_nth data (m + 21)) = ''none'' \<longrightarrow>
            js_get (motors (onMessage data s)) m = None)"
  using deviceList_motors [OF assms]
  by (auto split: option.splits)

theorem deviceList_motor_lifetime_witness:
  "js_nth (sampleDeviceList 7) 4 = Some DIRECT_REPLY \<and>
   updateDevices ((newEV3 (0::nat))\<lparr>updateDevices := True\<rparr>) \<and>
   (2::nat) < 4 \<and>
   js_get (motors (onMessage (sampleDeviceList 7) ((newEV3 (0::nat))\<lparr>updateDevices := True\<rparr>))) 2
     = Some (newEV3Motor 2 (Some ''largeMotor'')) \<and>
   js_get (motors (onMessage (sampleDeviceList 126)
      ((onMessage (sampleDeviceList 7) ((newEV3 (0::nat))\<lparr>updateDevices := True\<rparr>))
         \<lparr>updateDevices := True\<rparr>))) 2 = None"
proof -
  let ?s0 = "(newEV3 (0::nat))\<lparr>updateDevices := True\<rparr>"
  let ?s1 = "(onMessage (sampleDeviceList 7) ?s0)\<lparr>updateDevices := True\<rparr>"
  have h1: "js_nth (sampleDeviceList 7) 4 = Some DIRECT_REPLY"
    and h1': "js_nth (sampleDeviceList 126) 4 = Some DIRECT_REPLY"
    by (simp_all add: sampleDeviceList_def js_nth_def)
  have h2: "updateDevices ?s0" and h2': "updateDevices ?s1"
    by simp_all
  have h3: "(2::nat) < 4"
    by simp
  have t: "deviceTypeOrNone (js_nth (sampleDeviceList 7) (2 + 21)) = ''largeMotor''"
    and t': "deviceTypeOrNone (js_nth (sampleDeviceList 126) (2 + 21)) = ''none''"
    by (simp_all add: sampleDeviceList_def js_nth_def deviceTypeOrNone_def Ev3Device_def)
  have n: "js_get (motors ?s0) 2 = None"
    by (simp add: newEV3_def js_get_def)
  from deviceList_motor_lifetime [OF h1 h2 h3] t n
  have a: "js_get (motors (onMessage (sampleDeviceList 7) ?s0)) 2 = Some (newEV3Motor 2 (Some ''largeMotor''))"
    by simp
  from deviceList_motor_lifetime [OF h1' h2' h3] t'
  have b: "js_get (motors (onMessage (sampleDeviceList 126) ?s1)) 2 = None"
    by simp
  from h1 h2 h3 a b show ?thesis
    by simp
qed

section \<open>Decoding sample readings\<close>

lemma getFloat32_zero: "getFloat32 (Some 0) (Some 0) (Some 0) (Some 0) = Fin 0"
  by (simp add: getFloat32_def byteOrZero_def Let_def)

lemma getFloat32_one: "getFloat32 (Some 0) (Some 0) (Some 0x80) (Some 0x3f) = Fin 1"
  by (simp add: getFloat32_def byteOrZero_def Let_def)

lemma getFloat32_sample:
  "getFloat32 (Some 0x48) (Some 0x61) (Some 0x29) (Some 0x42) = Fin (1387561 / 32768)"
  by (simp add: getFloat32_def byteOrZero_def Let_def)

section \<open>Value replies before discovery\<close>

lemma newEV3_undiscovered:
  "sensorPorts (newEV3 l) = [] \<and> motorPorts (newEV3 l) = [] \<and>
   motors (newEV3 l) = [None, None, None, None]"
  by (simp add: newEV3_def)

lemma reset_undiscovered:
  "sensorPorts (reset s) = [] \<and> motorPorts (reset s) = [] \<and>
   motors (reset s) = [None, None, None, None]"
  by (simp add: reset_def clearInterval_def Let_def split: option.splits)

lemma pollValues_undiscovered:
  "sensorPorts (pollValues okayToSend s) = sensorPorts s \<and>
   motorPorts (pollValues okayToSend s) = motorPorts s \<and>
   motors (pollValues okayToSend s) = motors s"
  by (simp add: pollValues_def send_def sendMessage_def clearInterval_def Let_def split_def
      split: option.splits)

lemma js_get_nulls: "js_get [None, None, None, None] i = None"
proof (cases "i < 4")
  case True
  then show ?thesis
    using lt_4_cases [OF True] by (auto simp: js_get_def)
next
  case False
  then show ?thesis
    by (simp add: js_get_def)
qed

lemma values_before_discovery:
  assumes "sensorPorts s = []" and "motorPorts s = []"
    and "motors s = [None, None, None, None]" and "\<not> updateDevices s"
  shows "onMessage data s = s"
  using assms
  by (simp add: onMessage_def includes_undefined_def upt_4 readSensor_def readMotor_def
      labelOf_def js_get_def Let_def)

lemma deviceList_before_discovery:
  assumes "motors s = [None, None, None, None]" and "updateDevices s"
    and "js_nth data 4 = Some DIRECT_REPLY"
    and "js_get (motors (onMessage data s)) i = Some m"
  shows "m_position m = Some 0"
proof (cases "i < 4")
  case True
  have "js_get (motors s) i = None"
    using assms(1) by (simp add: js_get_nulls)
  with deviceList_motors [OF assms(3) assms(2) True] assms(4) show ?thesis
    by (auto simp: newEV3Motor_def split: if_splits)
next
  case False
  then have "js_get (motors (onMessage data s)) i = js_get (motors s) i"
    using assms(2,3) by (simp add: onMessage_def upt_4 updateMotor_motors Let_def)
  also have "\<dots> = None"
    using assms(1) by (simp add: js_get_nulls)
  finally show ?thesis
    using assms(4) by simp
qed

text \<open>
  C6. In a session whose port tables are still unset and whose motor slots are empty (as
  the constructor and \<open>reset\<close> leave them, and polling keeps them), a reply that is handled
  as a value reply, no device list being awaited, changes nothing at all: no reading, no
  button flag, no position. Whatever the reply and whether or not a device list is
  awaited, the readings and button flags stay as they were, and no motor holds a decoded
  position afterwards.
\<close>

theorem onMessage_before_discovery:
  assumes "sensorPorts s = []" and "motorPorts s = []"
    and "motors s = [None, None, None, None]"
  shows "(\<not> updateDevices s \<longrightarrow> onMessage data s = s) \<and>
         sensors (onMessage data s) = sensors s \<and>
         (\<forall>i m. js_get (motors (onMessage data s)) i = Some m \<longrightarrow> m_position m = Some 0)"
proof (cases "updateDevices s")
  case False
  then have "onMessage data s = s"
    using assms by (simp add: values_before_discovery)
  then show ?thesis
    using assms(3) by (simp add: js_get_nulls)
next
  case True
  show ?thesis
  proof (cases "js_nth data 4 = Some DIRECT_REPLY")
    case reply: True
    show ?thesis
      using True deviceList_sensors [OF True, of data]
        deviceList_before_discovery [OF assms(3) True reply]
      by blast
  next
    case False
    then have "onMessage data s = s"
      by (simp add: onMessage_def)
    then show ?thesis
      using True assms(3) by (simp add: js_get_nulls)
  qed
qed

theorem onMessage_before_discovery_witness:
  "sensorPorts (newEV3 (0::nat)) = [] \<and> motorPorts (newEV3 (0::nat)) = [] \<and>
   motors (newEV3 (0::nat)) = [None, None, None, None] \<and>
   \<not> updateDevices (newEV3 (0::nat)) \<and>
   js_nth sampleValues 4 = Some DIRECT_REPLY \<and>
   onMessage sampleValues (newEV3 (0::nat)) = newEV3 (0::nat) \<and>
   sensors (onMessage sampleValues sampleEV3) \<noteq> sensors sampleEV3"
proof -
  have h: "sensorPorts (newEV3 (0::nat)) = []" "motorPorts (newEV3 (0::nat)) = []"
    "motors (newEV3 (0::nat)) = [None, None, None, None]"
    by (simp_all add: newEV3_def)
  have u: "\<not> updateDevices (newEV3 (0::nat))"
    by (simp add: newEV3_def)
  have d: "js_nth sampleValues 4 = Some DIRECT_REPLY"
    by (simp add: sampleValues_def js_nth_def)
  have "brightness (sensors (onMessage sampleValues sampleEV3)) = Fin 1"
    by (simp add: onMessage_def sampleValues_def sampleEV3_def js_nth_def js_get_def js_set_def
        includes_undefined_def upt_4 readSensor_def readMotor_def labelOf_def Ev3Label_def
        getFloat32_zero getFloat32_one getFloat32_sample valueOrZero_def setSensor_def Let_def)
  moreover have "brightness (sensors sampleEV3) = Fin 0"
    by (simp add: sampleEV3_def initialSensors_def)
  ultimately have c: "sensors (onMessage sampleValues sampleEV3) \<noteq> sensors sampleEV3"
    by auto
  from h u d c onMessage_before_discovery [OF h, of sampleValues] show ?thesis
    by simp
qed

section \<open>Superseded coast requests\<close>

lemma coast_frame: "m_power m \<noteq> 0 \<Longrightarrow> coast m = [ParentSend (coastFrame m) False]"
  by (simp add: coast_def coastFrame_def)

lemma turnOnFor_motor:
  "m_power m \<noteq> 0 \<Longrightarrow> fst (turnOnFor commandId ms m) = m\<lparr>m_commandID := Some commandId\<rparr>"
  by (simp add: turnOnFor_def coastAfter_def Let_def split_def)

lemma turnOnFor_effects:
  "m_power m \<noteq> 0 \<Longrightarrow> \<exists>frame. snd (turnOnFor commandId ms m) =
     [ParentSend frame True, SetTimeout commandId (ms + m_coastDelay m)]"
  by (simp add: turnOnFor_def coastAfter_def Let_def split_def)

lemma callTurnOnFor_world:
  assumes "m_power (w_motor w) \<noteq> 0"
  shows "\<exists>frame. callTurnOnFor commandId ms w =
     w\<lparr>w_motor := (w_motor w)\<lparr>m_commandID := Some commandId\<rparr>,
       w_sent := w_sent w @ [(frame, True)],
       w_timers := w_timers w @ [(w_now w + max 0 (ms + m_coastDelay (w_motor w)), commandId)]\<rparr>"
proof -
  obtain frame where "snd (turnOnFor commandId ms (w_motor w)) =
     [ParentSend frame True, SetTimeout commandId (ms + m_coastDelay (w_motor w))]"
    using turnOnFor_effects [OF assms] by blast
  with turnOnFor_motor [OF assms, of commandId ms] have
    "callTurnOnFor commandId ms w =
     w\<lparr>w_motor := (w_motor w)\<lparr>m_commandID := Some commandId\<rparr>,
       w_sent := w_sent w @ [(frame, True)],
       w_timers := w_timers w @ [(w_now w + max 0 (ms + m_coastDelay (w_motor w)), commandId)]\<rparr>"
    by (simp add: callTurnOnFor_def split_def)
  then show ?thesis ..
qed

lemma turnOnFor_frame_length:
  assumes "m_power m \<noteq> 0"
    and "snd (turnOnFor commandId ms m) = ParentSend frame True # timers"
  shows "20 \<le> length frame"
proof -
  obtain pre post where p: "length pre = 7" "length post = 3"
    and f: "sentFrames (snd (turnOnFor commandId ms m)) =
       [generateCommand DIRECT_COMMAND_NO_REPLY
          (pre @ runValues (fst (snd (rampValues \<bar>ms\<bar>))) @ post) 0]"
    using turnOnFor_frame [OF assms(1)] by blast
  have "3 \<le> length (runValues r)" for r
    by (simp add: runValues_def)
  then have "20 \<le> length (generateCommand DIRECT_COMMAND_NO_REPLY
          (pre @ runValues (fst (snd (rampValues \<bar>ms\<bar>))) @ post) 0)"
    using p by (simp add: generateCommand_length add.commute)
  moreover have "sentFrames (snd (turnOnFor commandId ms m)) = frame # sentFrames timers"
    using assms(2) by simp
  ultimately show ?thesis
    using f by simp
qed

lemma coastFrame_length: "length (coastFrame m) = 11"
  by (simp add: coastFrame_def generateCommand_length)

lemma callTurnOnFor_twice:
  assumes "m_power m \<noteq> 0"
  shows "\<exists>f1 f2. 20 \<le> length f1 \<and> 20 \<le> length f2 \<and>
     callTurnOnFor id2 ms2 (callTurnOnFor id1 ms1 (newWorld m)) =
     \<lparr>w_motor = m\<lparr>m_commandID := Some id2\<rparr>, w_now = 0,
      w_timers = [(max 0 (ms1 + m_coastDelay m), id1), (max 0 (ms2 + m_coastDelay m), id2)],
      w_sent = [(f1, True), (f2, True)]\<rparr>"
proof -
  let ?m1 = "m\<lparr>m_commandID := Some id1\<rparr>"
  have p1: "m_power ?m1 \<noteq> 0"
    using assms by simp
  obtain f1 where e1: "snd (turnOnFor id1 ms1 m) =
     [ParentSend f1 True, SetTimeout id1 (ms1 + m_coastDelay m)]"
    using turnOnFor_effects [OF assms] by blast
  obtain f2 where e2: "snd (turnOnFor id2 ms2 ?m1) =
     [ParentSend f2 True, SetTimeout id2 (ms2 + m_coastDelay ?m1)]"
    using turnOnFor_effects [OF p1] by blast
  have l: "20 \<le> length f1" "20 \<le> length f2"
    using turnOnFor_frame_length [OF assms e1] turnOnFor_frame_length [OF p1 e2] by simp_all
  have w1: "callTurnOnFor id1 ms1 (newWorld m) =
     \<lparr>w_motor = ?m1, w_now = 0, w_timers = [(max 0 (ms1 + m_coastDelay m), id1)],
      w_sent = [(f1, True)]\<rparr>"
    using e1 turnOnFor_motor [OF assms, of id1 ms1]
    by (simp add: callTurnOnFor_def newWorld_def split_def)
  have "callTurnOnFor id2 ms2 (callTurnOnFor id1 ms1 (newWorld m)) =
     \<lparr>w_motor = m\<lparr>m_commandID := Some id2\<rparr>, w_now = 0,
      w_timers = [(max 0 (ms1 + m_coastDelay m), id1), (max 0 (ms2 + m_coastDelay m), id2)],
      w_sent = [(f1, True), (f2, True)]\<rparr>"
    unfolding w1 using e2 turnOnFor_motor [OF p1, of id2 ms2]
    by (simp add: callTurnOnFor_def split_def)
  with l show ?thesis
    by blast
qed

lemma runTimers_two:
  assumes "m_power m \<noteq> 0" and "id1 \<noteq> id2"
  shows "w_sent (runTimers
     \<lparr>w_motor = m\<lparr>m_commandID := Some id2\<rparr>, w_now = 0,
      w_timers = [(d1, id1), (d2, id2)], w_sent = sent\<rparr>) = sent @ [(coastFrame m, False)]"
  using assms
  by (simp add: runTimers_def numeral_2_eq_2 fireNext_def coastCallback_def coast_def
      coastFrame_def Let_def)

lemma runTimers_two_motor:
  assumes "m_power m \<noteq> 0" and "id1 \<noteq> id2"
  shows "w_motor (runTimers
     \<lparr>w_motor = m\<lparr>m_commandID := Some id2\<rparr>, w_now = 0,
      w_timers = [(d1, id1), (d2, id2)], w_sent = sent\<rparr>) = m\<lparr>m_commandID := None\<rparr>"
  using assms
  by (simp add: runTimers_def numeral_2_eq_2 fireNext_def coastCallback_def coast_def
      coastFrame_def Let_def)

text \<open>
  C7. A motor with non-zero power is told \<open>turnOnFor (100)\<close> and then \<open>turnOnFor (50)\<close>;
  the two calls of \<open>uid()\<close> return different ids. Afterwards the motor's command id is
  the second one, and no stop command has been sent. The callback of the first run finds
  another id and does nothing, before or after the second callback has fired; the
  callback of the second run sends the stop command and clears the id. Once both
  timeouts have fired, exactly one stop command has been sent.
\<close>

theorem coast_only_for_latest_command:
  assumes "m_power m \<noteq> 0" and "id1 \<noteq> id2"
  shows "let w = callTurnOnFor id2 50 (callTurnOnFor id1 100 (newWorld m)) in
     m_commandID (w_motor w) = Some id2 \<and>
     map snd (w_timers w) = [id1, id2] \<and>
     coastSends w = 0 \<and>
     coastCallback id1 (w_motor w) = (w_motor w, []) \<and>
     coastCallback id2 (w_motor w) =
       ((w_motor w)\<lparr>m_commandID := None\<rparr>, [ParentSend (coastFrame m) False]) \<and>
     coastCallback id1 ((w_motor w)\<lparr>m_commandID := None\<rparr>) =
       ((w_motor w)\<lparr>m_commandID := None\<rparr>, []) \<and>
     w_sent (runTimers w) = w_sent w @ [(coastFrame m, False)] \<and>
     coastSends (runTimers w) = 1"
proof -
  obtain f1 f2 where l: "20 \<le> length f1" "20 \<le> length f2"
    and w: "callTurnOnFor id2 50 (callTurnOnFor id1 100 (newWorld m)) =
     \<lparr>w_motor = m\<lparr>m_commandID := Some id2\<rparr>, w_now = 0,
      w_timers = [(max 0 (100 + m_coastDelay m), id1), (max 0 (50 + m_coastDelay m), id2)],
      w_sent = [(f1, True), (f2, True)]\<rparr>"
    using callTurnOnFor_twice [OF assms(1), of id2 50 id1 100] by blast
  have n: "f1 \<noteq> coastFrame m" "f2 \<noteq> coastFrame m"
    using l coastFrame_length [of m] by auto
  have c: "coastFrame (m\<lparr>m_commandID := x\<rparr>) = coastFrame m" for x
    by (simp add: coastFrame_def)
  have s: "w_sent (runTimers (callTurnOnFor id2 50 (callTurnOnFor id1 100 (newWorld m)))) =
      [(f1, True), (f2, True), (coastFrame m, False)]"
    unfolding w using runTimers_two [OF assms] by simp
  have r: "w_motor (runTimers (callTurnOnFor id2 50 (callTurnOnFor id1 100 (newWorld m)))) =
      m\<lparr>m_commandID := None\<rparr>"
    unfolding w using runTimers_two_motor [OF assms] by simp
  have "coastSends (runTimers (callTurnOnFor id2 50 (callTurnOnFor id1 100 (newWorld m)))) = 1"
    unfolding coastSends_def s r using n by (simp add: c)
  moreover have "coastCallback id2 (m\<lparr>m_commandID := Some id2\<rparr>) =
       (m\<lparr>m_commandID := None\<rparr>, [ParentSend (coastFrame m) False])"
    using assms(1) by (simp add: coastCallback_def coast_def coastFrame_def)
  moreover have "coastCallback id1 (m\<lparr>m_commandID := Some id2\<rparr>) = (m\<lparr>m_commandID := Some id2\<rparr>, [])"
    using assms(2) by (simp add: coastCallback_def)
  moreover have "coastCallback id1 (m\<lparr>m_commandID := None\<rparr>) = (m\<lparr>m_commandID := None\<rparr>, [])"
    by (simp add: coastCallback_def)
  ultimately show ?thesis
    unfolding Let_def using s n by (simp add: w coastSends_def c)
qed

theorem coast_only_for_latest_command_witness:
  "m_power (newEV3Motor 2 (Some ''largeMotor'')) \<noteq> 0 \<and> ''uid-1'' \<noteq> ''uid-2'' \<and>
   w_timers (callTurnOnFor ''uid-2'' 50 (callTurnOnFor ''uid-1'' 100
      (newWorld (newEV3Motor 2 (Some ''largeMotor''))))) = [(1100, ''uid-1''), (1050, ''uid-2'')] \<and>
   coastSends (runTimers (callTurnOnFor ''uid-2'' 50 (callTurnOnFor ''uid-1'' 100
      (newWorld (newEV3Motor 2 (Some ''largeMotor'')))))) = 1"
proof -
  have h: "m_power (newEV3Motor 2 (Some ''largeMotor'')) \<noteq> 0"
    by (simp add: newEV3Motor_def)
  have d: "''uid-1'' \<noteq> ''uid-2''"
    by simp
  have t: "w_timers (callTurnOnFor ''uid-2'' 50 (callTurnOnFor ''uid-1'' 100
      (newWorld (newEV3Motor 2 (Some ''largeMotor''))))) = [(1100, ''uid-1''), (1050, ''uid-2'')]"
    by (simp add: callTurnOnFor_def turnOnFor_def coastAfter_def newWorld_def newEV3Motor_def
        Let_def split_def)
  from h d t coast_only_for_latest_command [OF h d] show ?thesis
    by (simp add: Let_def)
qed

section \<open>Rounding to a double\<close>

lemma ilog2_lower: "0 < r \<Longrightarrow> 2 powi (ilog2 r) \<le> r"
proof (induction r rule: ilog2.induct)
  case (1 r)
  show ?case
  proof (cases "2 \<le> r")
    case True
    then have "2 powi (ilog2 (r / 2)) \<le> r / 2"
      using 1 by simp
    moreover have "ilog2 r = ilog2 (r / 2) + 1"
      using True 1(3) by (simp add: ilog2.simps [of r])
    ultimately show ?thesis
      by (simp add: power_int_add)
  next
    case False
    show ?thesis
    proof (cases "r < 1")
      case True
      then have "2 powi (ilog2 (2 * r)) \<le> 2 * r"
        using 1 False by simp
      moreover have "ilog2 r = ilog2 (2 * r) - 1"
        using True False 1(3) by (simp add: ilog2.simps [of r])
      ultimately show ?thesis
        by (simp add: power_int_diff)
    next
      case ge: False
      then have "ilog2 r = 0"
        using False 1(3) by (simp add: ilog2.simps [of r])
      then show ?thesis
        using ge by simp
    qed
  qed
qed

lemma roundEven_le: "q \<le> of_int n \<Longrightarrow> roundEven q \<le> n"
proof -
  assume a: "q \<le> of_int n"
  then have f: "\<lfloor>q\<rfloor> \<le> n"
    by (simp add: floor_le_iff)
  show ?thesis
  proof (cases "\<lfloor>q\<rfloor> = n")
    case True
    then have "q = of_int n"
      using a of_int_floor_le [of q] by simp
    then show ?thesis
      by (simp add: roundEven_def)
  next
    case False
    then have "\<lfloor>q\<rfloor> + 1 \<le> n"
      using f by simp
    then show ?thesis
      by (simp add: roundEven_def Let_def)
  qed
qed

lemma roundEven_ge: "of_int n \<le> q \<Longrightarrow> n \<le> roundEven q"
proof -
  assume "of_int n \<le> q"
  then have "n \<le> \<lfloor>q\<rfloor>"
    by (simp add: le_floor_iff)
  then show ?thesis
    by (simp add: roundEven_def Let_def)
qed

lemma roundEven_error: "\<bar>of_int (roundEven q) - q\<bar> \<le> 1 / 2"
proof -
  have "of_int \<lfloor>q\<rfloor> \<le> q" and "q < of_int \<lfloor>q\<rfloor> + 1"
    by linarith+
  then show ?thesis
    by (auto simp: roundEven_def Let_def abs_le_iff)
qed

lemma ilog2_less:
  assumes "0 < x" and "x < 2 powi (E + 1)"
  shows "ilog2 x \<le> E"
proof (rule ccontr)
  assume "\<not> ilog2 x \<le> E"
  then have "E + 1 \<le> ilog2 x"
    by simp
  then have "(2::rat) powi (E + 1) \<le> 2 powi (ilog2 x)"
    by (rule power_int_increasing) simp
  also have "\<dots> \<le> x"
    using assms(1) by (rule ilog2_lower)
  finally show False
    using assms(2) by simp
qed

text \<open>The spacing of the doubles around \<open>x\<close>.\<close>

lemma fl64_shape:
  assumes "0 < x"
  shows "fl64 x = of_int (roundEven (x / 2 powi (max (ilog2 x) (- 1022) - 52)))
                  * 2 powi (max (ilog2 x) (- 1022) - 52)"
  using assms by (simp add: fl64_def Let_def)

lemma fl64_nonneg: "0 \<le> x \<Longrightarrow> 0 \<le> fl64 x"
proof (cases "x = 0")
  case True
  then show ?thesis
    by (simp add: fl64_def)
next
  case False
  assume "0 \<le> x"
  with False have pos: "0 < x"
    by simp
  define u :: rat where "u = 2 powi (max (ilog2 x) (- 1022) - 52)"
  have u: "0 < u"
    by (simp add: u_def)
  have "of_int 0 \<le> x / u"
    using pos u by simp
  then have "0 \<le> roundEven (x / u)"
    by (rule roundEven_ge)
  then show ?thesis
    using u by (simp add: fl64_shape [OF pos] u_def [symmetric])
qed

lemma fl64_le_int:
  assumes "0 \<le> x" and "x \<le> of_int B" and "B < 2 ^ 52"
  shows "fl64 x \<le> of_int B"
proof (cases "x = 0")
  case True
  then show ?thesis
    using assms by (simp add: fl64_def)
next
  case False
  with assms(1) have pos: "0 < x"
    by simp
  define e where "e = max (ilog2 x) (- 1022)"
  define u :: rat where "u = 2 powi (e - 52)"
  have "x < 2 powi (51 + 1)"
  proof -
    have "x \<le> of_int B"
      by (rule assms(2))
    also have "\<dots> < of_int (2 ^ 52)"
      using assms(3) by (simp only: of_int_less_iff)
    finally show ?thesis
      by simp
  qed
  with pos have "ilog2 x \<le> 51"
    by (rule ilog2_less)
  then have e: "e \<le> 51"
    by (simp add: e_def)
  have u: "0 < u"
    by (simp add: u_def)
  have inv: "1 / u = of_int (2 ^ nat (52 - e))"
  proof -
    have "1 / u = 2 powi (- (e - 52))"
      by (simp only: u_def power_int_minus_divide)
    also have "\<dots> = 2 powi (int (nat (52 - e)))"
      using e by simp
    also have "\<dots> = of_int (2 ^ nat (52 - e))"
      by (simp only: power_int_of_nat of_int_power of_int_numeral)
    finally show ?thesis .
  qed
  have "x / u = x * (1 / u)"
    by simp
  also have "\<dots> \<le> of_int B * (1 / u)"
    using assms(2) u by (intro mult_right_mono) simp_all
  also have "\<dots> = of_int (B * 2 ^ nat (52 - e))"
    by (simp only: inv of_int_mult)
  finally have "roundEven (x / u) \<le> B * 2 ^ nat (52 - e)"
    by (rule roundEven_le)
  then have "(of_int (roundEven (x / u)) :: rat) \<le> of_int (B * 2 ^ nat (52 - e))"
    by (simp only: of_int_le_iff)
  then have "of_int (roundEven (x / u)) * u \<le> of_int (B * 2 ^ nat (52 - e)) * u"
    using u by (intro mult_right_mono) simp_all
  also have "\<dots> = of_int B * ((1 / u) * u)"
    by (simp only: inv of_int_mult mult.assoc)
  also have "\<dots> = of_int B"
    using u by simp
  finally show ?thesis
    by (simp add: fl64_shape [OF pos] u_def e_def)
qed

lemma fl64_error:
  assumes "0 < x" and "x < 2 powi (E + 1)" and "- 1022 \<le> E"
  shows "\<bar>fl64 x - x\<bar> \<le> 2 powi (E - 53)"
proof -
  define e where "e = max (ilog2 x) (- 1022)"
  define u :: rat where "u = 2 powi (e - 52)"
  have u: "0 < u"
    by (simp add: u_def)
  have "ilog2 x \<le> E"
    using assms(1,2) by (rule ilog2_less)
  then have "e \<le> E"
    using assms(3) by (simp add: e_def)
  then have "e - 52 \<le> E - 52"
    by simp
  then have le: "u \<le> 2 powi (E - 52)"
    unfolding u_def by (rule power_int_increasing) simp
  have "fl64 x - x = (of_int (roundEven (x / u)) - x / u) * u"
    using u by (simp add: fl64_shape [OF assms(1)] u_def e_def field_simps)
  then have "\<bar>fl64 x - x\<bar> = \<bar>of_int (roundEven (x / u)) - x / u\<bar> * u"
    using u by (simp add: abs_mult)
  also have "\<dots> \<le> 1 / 2 * u"
    using u roundEven_error [of "x / u"] by (intro mult_right_mono) simp_all
  also have "\<dots> \<le> 1 / 2 * 2 powi (E - 52)"
    using le by simp
  also have "\<dots> = 2 powi (E - 53)"
    by (simp add: power_int_diff)
  finally show ?thesis .
qed

lemma binary64_finite:
  assumes "0 \<le> x" and "x \<le> of_int B" and "B < 2 ^ 52"
  shows "binary64 x = Fin (fl64 x)"
proof -
  have "0 \<le> fl64 x"
    using assms(1) by (rule fl64_nonneg)
  moreover have "fl64 x \<le> of_int B"
    using assms by (rule fl64_le_int)
  moreover have "(of_int B :: rat) < of_int (2 ^ 52)"
    using assms(3) by (simp only: of_int_less_iff)
  moreover have "(of_int (2 ^ 52) :: rat) < 2 ^ 1024"
    by simp
  ultimately show ?thesis
    by (simp add: binary64_def Let_def)
qed

section \<open>The distance accessor\<close>

lemma valueOrZero_not_NaN: "valueOrZero v \<noteq> NaN"
  by (simp add: valueOrZero_def)

text \<open>No reply stores \<open>NaN\<close> as the distance.\<close>

lemma readSensor_distance:
  "distance (sensors (fst st)) \<noteq> NaN \<Longrightarrow>
   distance (sensors (fst (readSensor data i st))) \<noteq> NaN"
  by (cases st)
     (auto simp: readSensor_def setSensor_def valueOrZero_not_NaN Let_def split: option.splits)

lemma readMotor_sensors: "sensors (fst (readMotor data i st)) = sensors (fst st)"
  by (cases st) (simp add: readMotor_def Let_def split: option.splits)

lemma onMessage_distance:
  assumes "distance (sensors s) \<noteq> NaN"
  shows "distance (sensors (onMessage data s)) \<noteq> NaN"
proof (cases "js_nth data 4 = Some DIRECT_REPLY \<and> \<not> updateDevices s")
  case True
  have "distance (sensors (fst (fold (readSensor data) [0..<4] (s, 5)))) \<noteq> NaN"
    using assms by (simp add: upt_4 readSensor_distance)
  then have "distance (sensors (fst (fold (readMotor data) [0..<4]
      (fold (readSensor data) [0..<4] (s, 5))))) \<noteq> NaN"
    by (simp add: upt_4 readMotor_sensors)
  then show ?thesis
    using True assms by (simp add: onMessage_def Let_def split_def)
next
  case False
  then show ?thesis
    using assms deviceList_sensors [of s data] by (auto simp: onMessage_def)
qed

lemma clampTo100_range: "0 \<le> clampTo100 v \<and> clampTo100 v \<le> 100"
  by (cases v) simp_all

lemma get_distance_clamped:
  assumes "distance (sensors s) \<noteq> NaN"
  shows "fst (get_distance s) =
     js_divide (Math_round (js_times 100 (Fin (clampTo100 (distance (sensors s)))))) 100"
  using assms by (cases "distance (sensors s)") (auto simp: get_distance_def Let_def)

lemma round_half_up_error: "\<bar>of_int \<lfloor>y + 1 / 2\<rfloor> - y\<bar> \<le> 1 / (2::rat)"
proof -
  have "of_int \<lfloor>y + 1 / 2\<rfloor> \<le> y + 1 / 2" and "y + 1 / 2 < of_int \<lfloor>y + 1 / 2\<rfloor> + 1"
    by linarith+
  then show ?thesis
    by linarith
qed

lemma distance_pipeline:
  assumes "0 \<le> c" and "c \<le> 100"
  defines "k \<equiv> \<lfloor>fl64 (100 * c) + 1 / 2\<rfloor>"
  shows "js_divide (Math_round (js_times 100 (Fin c))) 100 = Fin (fl64 (of_int k / 100))"
    and "0 \<le> k" and "k \<le> 10000"
    and "0 \<le> fl64 (of_int k / 100)" and "fl64 (of_int k / 100) \<le> 100"
    and "\<bar>of_int k - 100 * c\<bar> \<le> 1 / 2 + 1 / 2 ^ 40"
    and "\<bar>fl64 (of_int k / 100) - of_int k / 100\<bar> \<le> 1 / 2 ^ 47"
proof -
  have x: "0 \<le> 100 * c" "100 * c \<le> of_int 10000"
    using assms(1,2) by simp_all
  have y1: "0 \<le> fl64 (100 * c)"
    using x(1) by (rule fl64_nonneg)
  have y2: "fl64 (100 * c) \<le> of_int 10000"
    using x by (rule fl64_le_int) simp
  note y = y1 y2
  have b1: "binary64 (100 * c) = Fin (fl64 (100 * c))"
    using x by (rule binary64_finite) simp
  show k0: "0 \<le> k"
    unfolding k_def using y(1) by simp
  have "fl64 (100 * c) + 1 / 2 < of_int 10000 + 1"
    using y(2) by simp
  then have "k < 10000 + 1"
    unfolding k_def by (simp only: floor_less_iff of_int_add of_int_1)
  then show k1: "k \<le> 10000"
    by simp
  have q: "0 \<le> (of_int k :: rat) / 100" "(of_int k :: rat) / 100 \<le> of_int 100"
    using k0 k1 by simp_all
  have b2: "binary64 (of_int k / 100) = Fin (fl64 (of_int k / 100))"
    using q by (rule binary64_finite) simp
  have "js_divide (Math_round (js_times 100 (Fin c))) 100 = binary64 (of_int k / 100)"
    by (simp add: b1 k_def)
  then show "js_divide (Math_round (js_times 100 (Fin c))) 100 = Fin (fl64 (of_int k / 100))"
    by (simp only: b2)
  show "0 \<le> fl64 (of_int k / 100)"
    using q(1) by (rule fl64_nonneg)
  have "fl64 (of_int k / 100) \<le> of_int 100"
    using q by (rule fl64_le_int) simp
  then show "fl64 (of_int k / 100) \<le> 100"
    by simp
  have e1: "\<bar>fl64 (100 * c) - 100 * c\<bar> \<le> 1 / 2 ^ 40"
  proof (cases "c = 0")
    case True
    then show ?thesis
      by (simp add: fl64_def)
  next
    case False
    then have "0 < 100 * c" and "100 * c < 2 powi (13 + 1)"
      using assms(1,2) by simp_all
    then have "\<bar>fl64 (100 * c) - 100 * c\<bar> \<le> 2 powi (13 - 53)"
      by (rule fl64_error) simp
    then show ?thesis
      by (simp add: power_int_minus_divide)
  qed
  have "\<bar>of_int k - fl64 (100 * c)\<bar> \<le> 1 / 2"
    unfolding k_def by (rule round_half_up_error)
  with e1 show "\<bar>of_int k - 100 * c\<bar> \<le> 1 / 2 + 1 / 2 ^ 40"
    by linarith
  show "\<bar>fl64 (of_int k / 100) - of_int k / 100\<bar> \<le> 1 / 2 ^ 47"
  proof (cases "k = 0")
    case True
    then show ?thesis
      by (simp add: fl64_def)
  next
    case False
    then have "0 < (of_int k :: rat) / 100" and "(of_int k :: rat) / 100 < 2 powi (6 + 1)"
      using k0 k1 by simp_all
    then have "\<bar>fl64 (of_int k / 100) - of_int k / 100\<bar> \<le> 2 powi (6 - 53)"
      by (rule fl64_error) simp
    then show ?thesis
      by (simp add: power_int_minus_divide)
  qed
qed

lemma floor_numeral_div: "\<lfloor>numeral a / numeral b :: rat\<rfloor> = numeral a div numeral b"
  using floor_divide_of_int_eq [of "numeral a" "numeral b", where ?'a = rat] by simp

lemma fl64_10000: "fl64 10000 = 10000"
  by (simp add: fl64_def ilog2.simps roundEven_def Let_def)

lemma fl64_100: "fl64 100 = 100"
  by (simp add: fl64_def ilog2.simps roundEven_def Let_def)

lemma fl64_42345: "fl64 (42345 / 1000) = 1489882236101591 / 35184372088832"
  by (simp add: fl64_def ilog2.simps roundEven_def Let_def floor_numeral_div)

lemma fl64_product: "fl64 (100 * (1489882236101591 / 35184372088832)) = 8469 / 2"
  by (simp add: fl64_def ilog2.simps roundEven_def Let_def floor_numeral_div)

lemma fl64_product_single: "fl64 (100 * (1387561 / 32768)) = 34689025 / 8192"
  by (simp add: fl64_def ilog2.simps roundEven_def Let_def floor_numeral_div)

lemma binary64_42345: "binary64 (42345 / 1000) = Fin (1489882236101591 / 35184372088832)"
proof -
  have "binary64 (42345 / 1000) = Fin (fl64 (42345 / 1000))"
    by (rule binary64_finite [where B = 100]) simp_all
  then show ?thesis
    by (simp only: fl64_42345)
qed

lemma binary64_4235: "binary64 (4235 / 100) = Fin (fl64 (of_int 4235 / 100))"
proof -
  have "binary64 (4235 / 100) = Fin (fl64 (4235 / 100))"
    by (rule binary64_finite [where B = 100]) simp_all
  then show ?thesis
    by simp
qed

text \<open>
  C9. For a stored distance other than \<open>NaN\<close> (a reading is never stored as \<open>NaN\<close>), the
  accessor returns the peripheral as it was, and a number \<open>d\<close> found as follows: with \<open>c\<close>
  the stored value clamped to the range from 0 to 100 and \<open>k\<close> the integer nearest to the
  double product \<open>100 * c\<close>, \<open>d\<close> is the double nearest to \<open>k / 100\<close>. So \<open>d\<close> is between 0
  and 100 and is, up to double rounding, the stored value to two decimal places. The
  stored values 150, -5 and 42.345 (as a double, and as the single that a sensor can
  report) are exposed as 100, 0 and 42.35.
\<close>

theorem distance_clamps_and_rounds:
  assumes "distance (sensors s) \<noteq> NaN"
  shows "snd (get_distance s) = s \<and>
     (let c = clampTo100 (distance (sensors s));
          k = \<lfloor>fl64 (100 * c) + 1 / 2\<rfloor>;
          d = fl64 (of_int k / 100)
      in fst (get_distance s) = Fin d \<and> 0 \<le> d \<and> d \<le> 100 \<and> 0 \<le> k \<and> k \<le> 10000 \<and>
         \<bar>of_int k - 100 * c\<bar> \<le> 1 / 2 + 1 / 2 ^ 40 \<and>
         \<bar>d - of_int k / 100\<bar> \<le> 1 / 2 ^ 47) \<and>
     (distance (sensors s) = Fin 150 \<longrightarrow> fst (get_distance s) = Fin 100) \<and>
     (distance (sensors s) = Fin (- 5) \<longrightarrow> fst (get_distance s) = Fin 0) \<and>
     (distance (sensors s) = binary64 (42345 / 1000) \<longrightarrow>
        fst (get_distance s) = binary64 (4235 / 100)) \<and>
     (distance (sensors s) = Fin (1387561 / 32768) \<longrightarrow>
        fst (get_distance s) = binary64 (4235 / 100))"
proof -
  define c where "c = clampTo100 (distance (sensors s))"
  define k where "k = \<lfloor>fl64 (100 * c) + 1 / 2\<rfloor>"
  have r: "0 \<le> c" "c \<le> 100"
    using clampTo100_range [of "distance (sensors s)"] by (simp_all add: c_def)
  have "fst (get_distance s) = js_divide (Math_round (js_times 100 (Fin c))) 100"
    unfolding c_def using assms by (rule get_distance_clamped)
  then have g: "fst (get_distance s) = Fin (fl64 (of_int k / 100))"
    unfolding k_def by (simp only: distance_pipeline(1) [OF r])
  have same: "snd (get_distance s) = s"
    by (simp add: get_distance_def Let_def)
  have e1: "fst (get_distance s) = Fin 100" if "distance (sensors s) = Fin 150"
  proof -
    have "c = 100"
      by (simp add: c_def that)
    then have "k = 10000"
      by (simp add: k_def fl64_10000 floor_numeral_div)
    then show ?thesis
      by (simp add: g fl64_100)
  qed
  have e2: "fst (get_distance s) = Fin 0" if "distance (sensors s) = Fin (- 5)"
  proof -
    have "c = 0"
      by (simp add: c_def that)
    then have "k = 0"
      by (simp add: k_def fl64_def floor_eq_iff)
    then show ?thesis
      by (simp add: g fl64_def)
  qed
  have e3: "fst (get_distance s) = binary64 (4235 / 100)"
    if "distance (sensors s) = binary64 (42345 / 1000)"
  proof -
    have "c = 1489882236101591 / 35184372088832"
      unfolding c_def that binary64_42345 by simp
    then have "k = \<lfloor>(8469::rat) / 2 + 1 / 2\<rfloor>"
      by (simp only: k_def fl64_product)
    then have "k = 4235"
      by (simp add: floor_numeral_div)
    then show ?thesis
      by (simp only: g binary64_4235)
  qed
  have e4: "fst (get_distance s) = binary64 (4235 / 100)"
    if "distance (sensors s) = Fin (1387561 / 32768)"
  proof -
    have "c = 1387561 / 32768"
      by (simp add: c_def that)
    then have "k = \<lfloor>(34689025::rat) / 8192 + 1 / 2\<rfloor>"
      by (simp only: k_def fl64_product_single)
    then have "k = 4235"
      by (simp add: floor_numeral_div)
    then show ?thesis
      by (simp only: g binary64_4235)
  qed
  have "fst (get_distance s) = Fin (fl64 (of_int k / 100)) \<and>
      0 \<le> fl64 (of_int k / 100) \<and> fl64 (of_int k / 100) \<le> 100 \<and> 0 \<le> k \<and> k \<le> 10000 \<and>
      \<bar>of_int k - 100 * c\<bar> \<le> 1 / 2 + 1 / 2 ^ 40 \<and>
      \<bar>fl64 (of_int k / 100) - of_int k / 100\<bar> \<le> 1 / 2 ^ 47"
    unfolding k_def using g distance_pipeline [OF r] by (simp only: k_def simp_thms)
  then show ?thesis
    unfolding Let_def c_def [symmetric] k_def [symmetric]
    using same e1 e2 e3 e4 by blast
qed

theorem distance_clamps_and_rounds_witness:
  "distance (sensors (sampleEV3\<lparr>sensors := initialSensors\<lparr>distance := Fin 150\<rparr>\<rparr>)) \<noteq> NaN \<and>
   get_distance (sampleEV3\<lparr>sensors := initialSensors\<lparr>distance := Fin 150\<rparr>\<rparr>)
     = (Fin 100, sampleEV3\<lparr>sensors := initialSensors\<lparr>distance := Fin 150\<rparr>\<rparr>)"
proof -
  let ?s = "sampleEV3\<lparr>sensors := initialSensors\<lparr>distance := Fin 150\<rparr>\<rparr>"
  have h: "distance (sensors ?s) \<noteq> NaN"
    by simp
  have v: "distance (sensors ?s) = Fin 150"
    by simp
  note t = distance_clamps_and_rounds [OF h]
  have a: "snd (get_distance ?s) = ?s"
    by (rule t [THEN conjunct1])
  have b: "fst (get_distance ?s) = Fin 100"
    by (rule t [THEN conjunct2, THEN conjunct2, THEN conjunct1, THEN mp]) (rule v)
  have "get_distance ?s = (Fin 100, ?s)"
    using a b by (simp only: prod_eq_iff fst_conv snd_conv simp_thms)
  with h show ?thesis
    by (rule conjI)
qed

end
